theory Spec2Isabelle
  imports
    Main
    "HOL-Library.Word"
    "HOL-Library.Multiset"
    "HOL-Library.List_Lexorder"
    "HOL-Library.Char_ord"
begin

unbundle bit_operations_syntax

section \<open>Python values\<close>

text \<open>
  The module \<^verbatim>\<open>dateparser/conf.py\<close> handles option values of any Python type. The
  embedding has the values the module itself inspects: \<^verbatim>\<open>None\<close> (compared with
  \<^verbatim>\<open>is None\<close>), the scalars whose \<^verbatim>\<open>str()\<close> is a function of the value, lists,
  dictionaries (\<^verbatim>\<open>isinstance(_, dict)\<close>) and instances of the class
  \<^verbatim>\<open>Settings\<close> (\<^verbatim>\<open>isinstance(_, Settings)\<close>).

  A dictionary is an association list in insertion order; a Python dictionary has each
  key once, which theorems assume as \<open>distinct (keys d)\<close> where it matters. Keys
  are strings: option names, keyword-argument names and attribute names are. A string is
  a \<open>char list\<close> holding the UTF-8 bytes of the Python string, so that
  \<^verbatim>\<open>.encode('utf-8')\<close> is the identity; comparing UTF-8 byte strings
  lexicographically orders them as Python orders strings (by code point).

  An instance of \<^verbatim>\<open>Settings\<close> is represented by its instance dictionary
  (\<^verbatim>\<open>__dict__\<close>). Values are compared by value: that two names hold the same
  object is not modelled.
\<close>

datatype pyval =
    PNone
  | PBool bool
  | PInt int
  | PStr string
  | PList "pyval list"
  | PDict "(string \<times> pyval) list"
  | PSettings "(string \<times> pyval) list"

type_synonym pydict = "(string \<times> pyval) list"

text \<open>
  Exceptions carry their message. \<open>NotModelled\<close> is not an exception: it marks an
  outcome outside the model, where the program goes on with an object that is not among
  the values above (a class, a bound method, an attribute of the interpreter's own).
\<close>

datatype error = TypeError string | AttributeError string | NotModelled string

text \<open>Truth value testing, as \<^verbatim>\<open>if x\<close>, \<^verbatim>\<open>not x\<close> and \<^verbatim>\<open>x or y\<close> do it.
  The class \<^verbatim>\<open>Settings\<close> defines neither \<^verbatim>\<open>__bool__\<close> nor \<^verbatim>\<open>__len__\<close>, so its
  instances are true.\<close>

fun truthy :: "pyval \<Rightarrow> bool" where
  "truthy PNone = False"
| "truthy (PBool b) = b"
| "truthy (PInt i) = (i \<noteq> 0)"
| "truthy (PStr s) = (s \<noteq> [])"
| "truthy (PList xs) = (xs \<noteq> [])"
| "truthy (PDict d) = (d \<noteq> [])"
| "truthy (PSettings a) = True"

definition py_or :: "pyval \<Rightarrow> pyval \<Rightarrow> pyval" where
  "py_or a b = (if truthy a then a else b)"

subsection \<open>Dictionary operations\<close>

text \<open>\<^verbatim>\<open>d[k] = v\<close>: an existing key keeps its position, a new key goes last.\<close>

fun setitem :: "string \<Rightarrow> pyval \<Rightarrow> pydict \<Rightarrow> pydict" where
  "setitem k v [] = [(k, v)]"
| "setitem k v ((k', v') # d) =
     (if k' = k then (k, v) # d else (k', v') # setitem k v d)"

definition keys :: "pydict \<Rightarrow> string list" where
  "keys d = map fst d"

text \<open>\<^verbatim>\<open>d.get(k)\<close>: the value, or \<^verbatim>\<open>None\<close> for a missing key.\<close>

definition dict_get :: "pydict \<Rightarrow> string \<Rightarrow> pyval" where
  "dict_get d k = (case map_of d k of Some v \<Rightarrow> v | None \<Rightarrow> PNone)"

text \<open>\<^verbatim>\<open>d.setdefault(k, v)\<close>: stores \<open>v\<close> only when \<open>k\<close> is missing.\<close>

definition setdefault :: "string \<Rightarrow> pyval \<Rightarrow> pydict \<Rightarrow> pydict" where
  "setdefault k v d = (if k \<in> set (keys d) then d else d @ [(k, v)])"

subsection \<open>\<^verbatim>\<open>str()\<close>\<close>

fun str_nat :: "nat \<Rightarrow> string" where
  "str_nat n =
     (if n < 10 then [''0123456789'' ! n]
      else str_nat (n div 10) @ [''0123456789'' ! (n mod 10)])"

declare str_nat.simps [simp del]

definition str_int :: "int \<Rightarrow> string" where
  "str_int i = (if i < 0 then ''-'' @ str_nat (nat (- i)) else str_nat (nat i))"

text \<open>
  \<^verbatim>\<open>str(v)\<close>. For lists, dictionaries and instances the text is built from
  \<^verbatim>\<open>repr\<close> of the parts, or from the address of the object; that text is the
  parameter \<open>object_str\<close>.
\<close>

fun py_str :: "(pyval \<Rightarrow> string) \<Rightarrow> pyval \<Rightarrow> string" where
  "py_str object_str PNone = ''None''"
| "py_str object_str (PBool b) = (if b then ''True'' else ''False'')"
| "py_str object_str (PInt i) = str_int i"
| "py_str object_str (PStr s) = s"
| "py_str object_str v = object_str v"

section \<open>\<^verbatim>\<open>hashlib.md5(...).hexdigest()\<close>\<close>

text \<open>The MD5 message digest of RFC 1321, over the bytes of the string.\<close>

definition md5_K :: "32 word list" where
  "md5_K =
  [0xd76aa478, 0xe8c7b756, 0x242070db, 0xc1bdceee,
   0xf57c0faf, 0x4787c62a, 0xa8304613, 0xfd469501,
   0x698098d8, 0x8b44f7af, 0xffff5bb1, 0x895cd7be,
   0x6b901122, 0xfd987193, 0xa679438e, 0x49b40821,
   0xf61e2562, 0xc040b340, 0x265e5a51, 0xe9b6c7aa,
   0xd62f105d, 0x02441453, 0xd8a1e681, 0xe7d3fbc8,
   0x21e1cde6, 0xc33707d6, 0xf4d50d87, 0x455a14ed,
   0xa9e3e905, 0xfcefa3f8, 0x676f02d9, 0x8d2a4c8a,
   0xfffa3942, 0x8771f681, 0x6d9d6122, 0xfde5380c,
   0xa4beea44, 0x4bdecfa9, 0xf6bb4b60, 0xbebfbc70,
   0x289b7ec6, 0xeaa127fa, 0xd4ef3085, 0x04881d05,
   0xd9d4d039, 0xe6db99e5, 0x1fa27cf8, 0xc4ac5665,
   0xf4292244, 0x432aff97, 0xab9423a7, 0xfc93a039,
   0x655b59c3, 0x8f0ccc92, 0xffeff47d, 0x85845dd1,
   0x6fa87e4f, 0xfe2ce6e0, 0xa3014314, 0x4e0811a1,
   0xf7537e82, 0xbd3af235, 0x2ad7d2bb, 0xeb86d391]"

definition md5_s :: "nat list" where
  "md5_s =
  [7, 12, 17, 22, 7, 12, 17, 22, 7, 12, 17, 22, 7, 12, 17, 22,
   5, 9, 14, 20, 5, 9, 14, 20, 5, 9, 14, 20, 5, 9, 14, 20,
   4, 11, 16, 23, 4, 11, 16, 23, 4, 11, 16, 23, 4, 11, 16, 23,
   6, 10, 15, 21, 6, 10, 15, 21, 6, 10, 15, 21, 6, 10, 15, 21]"

text \<open>Padding: the byte 0x80, zero bytes up to 56 modulo 64, then the length of the
  message in bits as a 64-bit little-endian number.\<close>

definition md5_pad :: "string \<Rightarrow> 8 word list" where
  "md5_pad s =
     (let n = length s; bits = (word_of_nat (8 * n) :: 64 word)
      in map of_char s @ [0x80] @ replicate ((119 - n mod 64) mod 64) 0
         @ map (\<lambda>i. ucast (drop_bit (8 * i) bits)) [0..<8])"

fun le_words :: "8 word list \<Rightarrow> 32 word list" where
  "le_words (b0 # b1 # b2 # b3 # bs) =
     (ucast b0 OR push_bit 8 (ucast b1) OR push_bit 16 (ucast b2) OR push_bit 24 (ucast b3))
     # le_words bs"
| "le_words bs = []"

type_synonym md5_state = "32 word \<times> 32 word \<times> 32 word \<times> 32 word"

definition md5_step :: "32 word list \<Rightarrow> md5_state \<Rightarrow> nat \<Rightarrow> md5_state" where
  "md5_step M st i =
     (case st of (A, B, C, D) \<Rightarrow>
        let (F, g) =
              (if i < 16 then ((B AND C) OR (NOT B AND D), i)
               else if i < 32 then ((D AND B) OR (NOT D AND C), (5 * i + 1) mod 16)
               else if i < 48 then (B XOR C XOR D, (3 * i + 5) mod 16)
               else (C XOR (B OR NOT D), (7 * i) mod 16));
            F' = F + A + md5_K ! i + M ! g
        in (D, B + word_rotl (md5_s ! i) F', B, C))"

definition md5_block :: "md5_state \<Rightarrow> 32 word list \<Rightarrow> md5_state" where
  "md5_block st M =
     (case st of (a0, b0, c0, d0) \<Rightarrow>
        case foldl (md5_step M) st [0..<64] of (A, B, C, D) \<Rightarrow>
          (a0 + A, b0 + B, c0 + C, d0 + D))"

definition md5_digest :: "string \<Rightarrow> md5_state" where
  "md5_digest s =
     (let ws = le_words (md5_pad s)
      in foldl (\<lambda>st j. md5_block st (take 16 (drop (16 * j) ws)))
           (0x67452301, 0xefcdab89, 0x98badcfe, 0x10325476)
           [0..<length ws div 16])"

definition hex_byte :: "8 word \<Rightarrow> string" where
  "hex_byte b =
     [''0123456789abcdef'' ! (unat b div 16), ''0123456789abcdef'' ! (unat b mod 16)]"

definition hex_word_le :: "32 word \<Rightarrow> string" where
  "hex_word_le w =
     concat (map hex_byte [ucast w, ucast (drop_bit 8 w), ucast (drop_bit 16 w),
                           ucast (drop_bit 24 w)])"

definition md5_hexdigest :: "string \<Rightarrow> string" where
  "md5_hexdigest s =
     (case md5_digest s of (a, b, c, d) \<Rightarrow>
        hex_word_le a @ hex_word_le b @ hex_word_le c @ hex_word_le d)"

section \<open>The class \<^verbatim>\<open>Settings\<close>\<close>

subsection \<open>\<^verbatim>\<open>Settings.get_key\<close>\<close>

text \<open>
  \<^verbatim>\<open>'%s-%s' % (key, str(settings[key]))\<close> for a key of the dictionary and its value.
\<close>

definition key_fragment :: "(pyval \<Rightarrow> string) \<Rightarrow> string \<times> pyval \<Rightarrow> string" where
  "key_fragment object_str kv = fst kv @ ''-'' @ py_str object_str (snd kv)"

text \<open>
  The argument is \<^verbatim>\<open>None\<close> (the default) or a dictionary. \<^verbatim>\<open>sorted\<close> on a list
  of strings is \<open>sort\<close> under the lexicographic order of byte strings; \<^verbatim>\<open>''.join\<close>
  is \<open>concat\<close>.
\<close>

definition get_key :: "(pyval \<Rightarrow> string) \<Rightarrow> pydict option \<Rightarrow> string" where
  "get_key object_str settings =
     (case settings of
        None \<Rightarrow> ''default''
      | Some d \<Rightarrow>
          if d = [] then ''default''
          else md5_hexdigest (concat (sort (map (key_fragment object_str) d))))"

subsection \<open>Attribute access on an instance\<close>

text \<open>A name between single quotes, and the name of the type of a value, as the
  interpreter prints them in a message.\<close>

definition quoted :: "string \<Rightarrow> string" where
  "quoted s = [CHR 0x27] @ s @ [CHR 0x27]"

fun type_name :: "pyval \<Rightarrow> string" where
  "type_name PNone = ''NoneType''"
| "type_name (PBool b) = ''bool''"
| "type_name (PInt i) = ''int''"
| "type_name (PStr s) = ''str''"
| "type_name (PList xs) = ''list''"
| "type_name (PDict d) = ''dict''"
| "type_name (PSettings a) = ''Settings''"

text \<open>
  Three names are data descriptors of the type of every instance: attribute access
  handles them itself and never looks them up in the instance dictionary.
\<close>

definition data_descriptor :: "string \<Rightarrow> bool" where
  "data_descriptor x \<longleftrightarrow> x \<in> set [''__class__'', ''__dict__'', ''__weakref__'']"

text \<open>
  \<^verbatim>\<open>setattr(self, key, value)\<close>. \<^verbatim>\<open>__class__\<close> accepts a class only, and no modelled
  value is a class; \<^verbatim>\<open>__dict__\<close> accepts a dictionary, which becomes the instance
  dictionary; \<^verbatim>\<open>__weakref__\<close> is read-only. Any other name is stored in the instance
  dictionary. The dictionary assigned to \<^verbatim>\<open>__dict__\<close> is the same object afterwards:
  attributes set later show through every other name of that dictionary, which the
  embedding, comparing by value, does not follow; the instance returned is as computed
  here.
\<close>

definition setattr :: "pydict \<Rightarrow> string \<Rightarrow> pyval \<Rightarrow> error + pydict" where
  "setattr self key v =
     (if key = ''__class__''
      then Inl (TypeError
             (''__class__ must be set to a class, not '' @ quoted (type_name v) @ '' object''))
      else if key = ''__dict__''
      then (case v of
              PDict d \<Rightarrow> Inr d
            | _ \<Rightarrow>
                Inl (TypeError
                  (''__dict__ must be set to a dictionary, not a '' @ quoted (type_name v))))
      else if key = ''__weakref__''
      then Inl (AttributeError
             (''attribute '' @ quoted ''__weakref__'' @ '' of '' @ quoted ''Settings''
              @ '' objects is not writable''))
      else Inr (setitem key v self))"

text \<open>
  The option table \<^verbatim>\<open>dateparser_data.settings.settings\<close> is not part of the module; it
  is the parameter \<open>table\<close> of everything below. \<^verbatim>\<open>_get_settings_from_pyfile\<close>
  reads it on the first call and returns the same dictionary ever after, so the class
  attribute \<^verbatim>\<open>_pyfile_data\<close> holds it whenever an attribute of an instance is read.
\<close>

definition get_settings_from_pyfile :: "pydict \<Rightarrow> pydict" where
  "get_settings_from_pyfile table = table"

text \<open>The data attributes of the class: \<^verbatim>\<open>_default = True\<close>, \<^verbatim>\<open>_pyfile_data\<close>,
  \<^verbatim>\<open>_mod_settings = dict()\<close>.\<close>

definition class_attr :: "pydict \<Rightarrow> string \<Rightarrow> pyval option" where
  "class_attr table x =
     (if x = ''_default'' then Some (PBool True)
      else if x = ''_pyfile_data'' then Some (PDict table)
      else if x = ''_mod_settings'' then Some (PDict [])
      else None)"

text \<open>
  The other names that attribute access finds on the type when the instance dictionary
  does not have them: the functions of the class body, and the names that begin with two
  underscores, which belong to the interpreter (which of them exist depends on its
  version).
\<close>

fun dunder :: "string \<Rightarrow> bool" where
  "dunder (a # b # x) \<longleftrightarrow> a = CHR ''_'' \<and> b = CHR ''_''"
| "dunder x \<longleftrightarrow> False"

definition special_name :: "string \<Rightarrow> bool" where
  "special_name x \<longleftrightarrow>
     dunder x \<or>
     x \<in> set [''get_key'', ''_get_settings_from_pyfile'', ''_updateall'', ''replace'']"

text \<open>
  \<^verbatim>\<open>getattr(self, x)\<close>. \<^verbatim>\<open>__dict__\<close> is the instance dictionary, \<^verbatim>\<open>__weakref__\<close>
  is \<^verbatim>\<open>None\<close> (the module makes no weak reference) and \<^verbatim>\<open>__class__\<close> is the class.
  Otherwise the instance dictionary comes first, then the data attributes of the class;
  a special name not found so far is a method or belongs to the interpreter; any other
  name raises \<^verbatim>\<open>AttributeError\<close>.
\<close>

definition getattr :: "pydict \<Rightarrow> pydict \<Rightarrow> string \<Rightarrow> error + pyval" where
  \<open>getattr table self x =
     (if x = ''__dict__'' then Inr (PDict self)
      else if x = ''__weakref__'' then Inr PNone
      else if x = ''__class__'' then Inl (NotModelled x)
      else
        (case map_of self x of
           Some v \<Rightarrow> Inr v
         | None \<Rightarrow>
             (case class_attr table x of
                Some v \<Rightarrow> Inr v
              | None \<Rightarrow>
                  if special_name x then Inl (NotModelled x)
                  else Inl (AttributeError
                         (quoted ''Settings'' @ '' object has no attribute '' @ quoted x)))))\<close>

text \<open>Calling a value that is not callable; no modelled value is.\<close>

definition not_callable :: "pyval \<Rightarrow> error" where
  "not_callable v = TypeError (quoted (type_name v) @ '' object is not callable'')"

subsection \<open>Construction\<close>

text \<open>\<^verbatim>\<open>_updateall\<close>: \<^verbatim>\<open>setattr(self, key, value)\<close> for each pair, in order; the first
  exception ends the loop.\<close>

fun updateall :: "pydict \<Rightarrow> pydict \<Rightarrow> error + pydict" where
  "updateall self [] = Inr self"
| "updateall self ((key, v) # iterable) =
     (case setattr self key v of
        Inl e \<Rightarrow> Inl e
      | Inr self' \<Rightarrow> updateall self' iterable)"

text \<open>
  Modelled from the spec: the class decorator \<^verbatim>\<open>registry\<close> of \<^verbatim>\<open>dateparser/utils\<close>
  is not among the sources. The spec has overlay return a new snapshot, so instantiating
  the class is a fresh instance on which \<^verbatim>\<open>__init__\<close> runs; the result is the
  instance dictionary, or the exception that \<^verbatim>\<open>__init__\<close> raised.
\<close>

definition Settings :: "pydict \<Rightarrow> pydict option \<Rightarrow> error + pydict" where
  "Settings table settings =
     (case settings of
        Some d \<Rightarrow>
          if d \<noteq> [] then updateall [] d
          else updateall [] (get_settings_from_pyfile table)
      | None \<Rightarrow> updateall [] (get_settings_from_pyfile table))"

subsection \<open>\<^verbatim>\<open>Settings.replace\<close>\<close>

text \<open>The first loop: the first \<^verbatim>\<open>None\<close> value raises
  \<^verbatim>\<open>TypeError('Invalid {{"{}": {}}}'.format(k, v))\<close>.\<close>

fun none_check :: "pydict \<Rightarrow> error option" where
  "none_check [] = None"
| \<open>none_check ((k, v) # kwds) =
     (if v = PNone then Some (TypeError (''Invalid {"'' @ k @ ''": None}''))
      else none_check kwds)\<close>

text \<open>The second loop: \<^verbatim>\<open>kwds.setdefault(x, getattr(self, x))\<close> for each option name;
  the attribute is read before \<^verbatim>\<open>setdefault\<close> looks at the key.\<close>

fun set_defaults :: "pydict \<Rightarrow> pydict \<Rightarrow> string list \<Rightarrow> pydict \<Rightarrow> error + pydict" where
  "set_defaults table self [] kwds = Inr kwds"
| "set_defaults table self (x # xs) kwds =
     (case getattr table self x of
        Inl e \<Rightarrow> Inl e
      | Inr v \<Rightarrow> set_defaults table self xs (setdefault x v kwds))"

text \<open>
  \<open>self\<close> is the instance dictionary of the receiver, \<open>mod_settings\<close> the value bound
  to the parameter of that name (\<^verbatim>\<open>None\<close> when not given) and \<open>kwds\<close> the other
  keyword arguments. \<^verbatim>\<open>self._get_settings_from_pyfile\<close> is the class method unless the
  instance dictionary has that name; then the value found there is called.
\<close>

definition replace :: "pydict \<Rightarrow> pydict \<Rightarrow> pyval \<Rightarrow> pydict \<Rightarrow> error + pydict" where
  "replace table self mod_settings kwds =
     (case none_check kwds of
        Some e \<Rightarrow> Inl e
      | None \<Rightarrow>
          (case map_of self ''_get_settings_from_pyfile'' of
             Some v \<Rightarrow> Inl (not_callable v)
           | None \<Rightarrow>
               (case set_defaults table self (keys (get_settings_from_pyfile table)) kwds of
                  Inl e \<Rightarrow> Inl e
                | Inr kwds1 \<Rightarrow>
                    let kwds2 = setitem ''_default'' (PBool False) kwds1;
                        kwds3 = (if truthy mod_settings
                                 then setitem ''_mod_settings'' mod_settings kwds2 else kwds2)
                    in Settings table (Some kwds3))))"

section \<open>\<^verbatim>\<open>apply_settings\<close>\<close>

text \<open>
  Modelled from the spec: the option table is not among the sources. The spec has it map
  option names to default values, every name becoming an attribute of the base snapshot.
  The module-level instance \<^verbatim>\<open>settings = Settings()\<close> is therefore the instance whose
  dictionary holds the entries of the table; \<open>Settings_option_table\<close> below shows that
  the constructor returns it for every table of option names.
\<close>

fun store_all :: "pydict \<Rightarrow> pydict \<Rightarrow> pydict" where
  "store_all self [] = self"
| "store_all self ((key, v) # iterable) = store_all (setitem key v self) iterable"

definition settings :: "pydict \<Rightarrow> pydict" where
  "settings table = store_all [] (get_settings_from_pyfile table)"

text \<open>
  The call \<^verbatim>\<open>settings.replace(mod_settings=mod_settings, **d)\<close>. The keyword arguments
  are put together first and \<^verbatim>\<open>mod_settings\<close> given twice raises \<^verbatim>\<open>TypeError\<close>; then
  \<^verbatim>\<open>settings.replace\<close> is called, which is the method unless the instance dictionary
  has the name \<^verbatim>\<open>replace\<close>; binding the arguments of the method raises
  \<^verbatim>\<open>TypeError\<close> when \<open>d\<close> has the key \<^verbatim>\<open>self\<close>. The wording of the first and the
  last message is the interpreter's and depends on its version.
\<close>

definition call_replace :: "pydict \<Rightarrow> pydict \<Rightarrow> pyval \<Rightarrow> pydict \<Rightarrow> error + pydict" where
  "call_replace table self mod_settings d =
     (if ''mod_settings'' \<in> set (keys d)
      then Inl (TypeError
             (''replace() got multiple values for keyword argument '' @ quoted ''mod_settings''))
      else
        (case map_of self ''replace'' of
           Some v \<Rightarrow> Inl (not_callable v)
         | None \<Rightarrow>
             if ''self'' \<in> set (keys d)
             then Inl (TypeError
                    (''replace() got multiple values for argument '' @ quoted ''self''))
             else replace table self mod_settings d))"

text \<open>
  \<^verbatim>\<open>wrapper(*args, **kwargs)\<close> around \<open>f\<close>. The result of \<open>f\<close> is returned as it
  is; \<open>Inl\<close> is an exception raised by the wrapper itself.
\<close>

definition wrapper ::
  "pydict \<Rightarrow> (pyval list \<Rightarrow> pydict \<Rightarrow> 'r) \<Rightarrow> pyval list \<Rightarrow> pydict \<Rightarrow> error + 'r" where
  "wrapper table f args kwargs =
     (let mod_settings = dict_get kwargs ''settings'';
          s1 = py_or mod_settings (PSettings (settings table));
          kwargs1 = setitem ''settings'' s1 kwargs
      in case (case s1 of
                 PDict d \<Rightarrow>
                   (case call_replace table (settings table) mod_settings d of
                      Inl e \<Rightarrow> Inl e
                    | Inr s \<Rightarrow> Inr (PSettings s))
               | _ \<Rightarrow> Inr s1) of
           Inl e \<Rightarrow> Inl e
         | Inr s2 \<Rightarrow>
             (case s2 of
                PSettings a \<Rightarrow> Inr (f args (setitem ''settings'' s2 kwargs1))
              | _ \<Rightarrow>
                  Inl (TypeError
                    ''settings can only be either dict or instance of Settings class'')))"

section \<open>Notions used by the properties\<close>

text \<open>\<^verbatim>\<open>isinstance(v, dict)\<close> and \<^verbatim>\<open>isinstance(v, Settings)\<close>.\<close>

fun isinstance_dict :: "pyval \<Rightarrow> bool" where
  "isinstance_dict (PDict d) = True"
| "isinstance_dict v = False"

fun isinstance_Settings :: "pyval \<Rightarrow> bool" where
  "isinstance_Settings (PSettings a) = True"
| "isinstance_Settings v = False"

text \<open>An instance carries a value for every option of the table: reading any of them
  with \<^verbatim>\<open>getattr\<close> succeeds.\<close>

definition has_all_options :: "pydict \<Rightarrow> pydict \<Rightarrow> bool" where
  "has_all_options table self =
     list_all (\<lambda>x. case getattr table self x of Inr v \<Rightarrow> True | Inl e \<Rightarrow> False) (keys table)"

text \<open>
  The option table is a dictionary whose names are option names: no special name, and
  not the two bookkeeping attributes of the class.
\<close>

definition option_table :: "pydict \<Rightarrow> bool" where
  "option_table table \<longleftrightarrow>
     distinct (keys table) \<and> list_all (\<lambda>x. \<not> special_name x) (keys table) \<and>
     ''_default'' \<notin> set (keys table) \<and> ''_mod_settings'' \<notin> set (keys table)"

text \<open>Names that \<^verbatim>\<open>setattr\<close> stores in the instance dictionary.\<close>

definition stored_names :: "string list \<Rightarrow> bool" where
  "stored_names xs = list_all (\<lambda>x. \<not> data_descriptor x) xs"

text \<open>The override set of an instance: its attribute \<^verbatim>\<open>_mod_settings\<close>, when that is
  a dictionary.\<close>

definition overridden :: "pydict \<Rightarrow> pydict \<Rightarrow> pydict option" where
  "overridden table s =
     (case getattr table s ''_mod_settings'' of Inr (PDict d) \<Rightarrow> Some d | _ \<Rightarrow> None)"

text \<open>A wrapped callable that returns the \<^verbatim>\<open>settings\<close> argument it was given.\<close>

definition received :: "pyval list \<Rightarrow> pydict \<Rightarrow> pyval" where
  "received args kwargs = dict_get kwargs ''settings''"

text \<open>The names of a mapping given as \<^verbatim>\<open>settings\<close>; no names for any other value.\<close>

fun mapping_names :: "pyval \<Rightarrow> string list" where
  "mapping_names (PDict d) = keys d"
| "mapping_names v = []"

text \<open>
  The instances the module hands out: the module-level instance, the result of
  \<^verbatim>\<open>replace\<close> on such an instance, and what a wrapped callable receives when the
  caller passed something other than an instance. Overrides that assign the instance
  dictionary itself (\<^verbatim>\<open>__dict__\<close>) are left out.
\<close>

inductive snapshot :: "pydict \<Rightarrow> pydict \<Rightarrow> bool" for table :: pydict where
  base: "snapshot table (settings table)"
| overlay:
    "snapshot table self \<Longrightarrow> ''__dict__'' \<notin> set (keys kwds) \<Longrightarrow>
     replace table self mod_settings kwds = Inr s \<Longrightarrow> snapshot table s"
| injected:
    "wrapper table received args kwargs = Inr (PSettings s) \<Longrightarrow>
     \<not> isinstance_Settings (dict_get kwargs ''settings'') \<Longrightarrow>
     ''__dict__'' \<notin> set (mapping_names (dict_get kwargs ''settings'')) \<Longrightarrow> snapshot table s"

text \<open>The values whose \<^verbatim>\<open>str()\<close> is fixed by the language: \<^verbatim>\<open>None\<close>, booleans,
  integers and strings.\<close>

fun scalar :: "pyval \<Rightarrow> bool" where
  "scalar PNone = True"
| "scalar (PBool b) = True"
| "scalar (PInt i) = True"
| "scalar (PStr s) = True"
| "scalar v = False"

text \<open>For the examples: every list, dictionary and instance prints as the same text.\<close>

definition opaque_str :: "pyval \<Rightarrow> string" where
  "opaque_str v = ''<object>''"

text \<open>
  \<^verbatim>\<open>str()\<close> of an object whose class defines neither \<^verbatim>\<open>__str__\<close> nor \<^verbatim>\<open>__repr__\<close>,
  as an instance of \<^verbatim>\<open>Settings\<close>: the name of the class and the address of the object,
  which differs from run to run.
\<close>

definition str_at :: "string \<Rightarrow> pyval \<Rightarrow> string" where
  "str_at address v = ''<dateparser.conf.Settings object at '' @ address @ ''>''"

section \<open>Lemmas\<close>

subsection \<open>The digest\<close>

lemma length_hex_byte: "length (hex_byte b) = 2"
  by (simp add: hex_byte_def)

lemma length_hex_word_le: "length (hex_word_le w) = 8"
  by (simp add: hex_word_le_def length_hex_byte)

lemma length_md5_hexdigest: "length (md5_hexdigest s) = 32"
  by (simp add: md5_hexdigest_def length_hex_word_le split: prod.splits)

lemma hex_digit_mem: "n < 16 \<Longrightarrow> ''0123456789abcdef'' ! n \<in> set ''0123456789abcdef''"
  by (rule nth_mem) simp

lemma set_pair_subset: "x \<in> S \<Longrightarrow> y \<in> S \<Longrightarrow> set [x, y] \<subseteq> S"
  by simp

lemma set_hex_byte: "set (hex_byte b) \<subseteq> set ''0123456789abcdef''"
proof -
  have "unat b < 256"
    using unsigned_less [of b] by simp
  then have "unat b div 16 < 16" by simp
  moreover have "unat b mod 16 < 16" by simp
  ultimately show ?thesis
    unfolding hex_byte_def by (intro set_pair_subset hex_digit_mem)
qed

lemma set_hex_word_le: "set (hex_word_le w) \<subseteq> set ''0123456789abcdef''"
  unfolding hex_word_le_def using set_hex_byte by (auto simp del: set_simps list.set)

lemma set_md5_hexdigest: "set (md5_hexdigest s) \<subseteq> set ''0123456789abcdef''"
  unfolding md5_hexdigest_def using set_hex_word_le
  by (auto simp del: set_simps list.set split: prod.splits)

lemma sort_fragments:
  assumes "distinct (map fst m1)" "distinct (map fst m2)" "set m1 = set m2"
  shows "sort (map f m1) = sort (map f m2)"
proof -
  have "distinct m1" "distinct m2"
    using assms(1,2) by (simp_all add: distinct_map)
  then have "mset m1 = mset m2"
    using assms(3) by (simp add: set_eq_iff_mset_eq_distinct)
  then have "mset (map f m1) = mset (map f m2)"
    by (metis mset_map)
  then show ?thesis
    by (metis mset_sort properties_for_sort sorted_sort)
qed

subsection \<open>Dictionaries\<close>

lemma map_of_setitem: "map_of (setitem k v d) = (map_of d)(k \<mapsto> v)"
  by (induction d) (auto simp: fun_eq_iff)

lemma map_fst_setitem:
  "map fst (setitem k v d) = (if k \<in> set (map fst d) then map fst d else map fst d @ [k])"
  by (induction d) (force simp: image_iff)+

lemma keys_setitem: "set (keys (setitem k v d)) = insert k (set (keys d))"
  by (simp add: keys_def map_fst_setitem insert_absorb del: set_map)

lemma set_setitem: "set (setitem k v d) \<subseteq> insert (k, v) (set d)"
  by (induction d) (auto split: if_splits)

lemma setitem_setitem: "setitem k v (setitem k w d) = setitem k v d"
  by (induction d) auto

lemma setitem_same: "map_of d k = Some v \<Longrightarrow> setitem k v d = d"
  by (induction d) auto

lemma setitem_nonempty: "setitem k v d \<noteq> []"
  by (cases d) (auto split: if_splits)

lemma distinct_setitem: "distinct (map fst d) \<Longrightarrow> distinct (map fst (setitem k v d))"
  by (simp add: map_fst_setitem)

lemma dict_get_setitem: "dict_get (setitem k v d) k = v"
  by (simp add: dict_get_def map_of_setitem)

lemma dict_get_Settings_map_of:
  "dict_get d k = PSettings a \<Longrightarrow> map_of d k = Some (PSettings a)"
  by (auto simp: dict_get_def split: option.splits)

lemma map_of_keys_None: "x \<notin> set (keys d) \<Longrightarrow> map_of d x = None"
  by (simp add: keys_def map_of_eq_None_iff)

lemma map_of_keys_Some: "x \<in> set (keys d) \<Longrightarrow> \<exists>v. map_of d x = Some v"
  by (metis keys_def map_of_eq_None_iff not_Some_eq set_map)

lemma map_of_store_all:
  "distinct (map fst d) \<Longrightarrow>
   map_of (store_all self d) x = (case map_of d x of Some v \<Rightarrow> Some v | None \<Rightarrow> map_of self x)"
proof (induction d arbitrary: self)
  case Nil
  then show ?case by simp
next
  case (Cons p d)
  obtain k v where p: "p = (k, v)" by (cases p)
  from Cons.prems have "map_of d k = None"
    by (simp add: p map_of_eq_None_iff)
  with Cons show ?case
    by (auto simp: p map_of_setitem split: option.splits)
qed

lemma set_store_all: "set (store_all self d) \<subseteq> set self \<union> set d"
proof (induction d arbitrary: self)
  case Nil
  then show ?case by simp
next
  case (Cons p d)
  obtain k v where p: "p = (k, v)" by (cases p)
  show ?case
    using Cons.IH [of "setitem k v self"] set_setitem [of k v self] by (auto simp: p)
qed

lemma keys_store_all: "set (keys (store_all self d)) = set (keys self) \<union> set (keys d)"
proof (induction d arbitrary: self)
  case Nil
  then show ?case by (simp add: keys_def)
next
  case (Cons p d)
  obtain k v where p: "p = (k, v)" by (cases p)
  show ?case
    using Cons.IH [of "setitem k v self"] keys_setitem [of k v self] by (auto simp: p keys_def)
qed

subsection \<open>Setting attributes\<close>

lemma special_data_descriptor: "data_descriptor x \<Longrightarrow> special_name x"
  unfolding data_descriptor_def special_name_def by (elim disjE | simp)+

lemma stored_names_iff: "stored_names xs \<longleftrightarrow> (\<forall>x \<in> set xs. \<not> data_descriptor x)"
  by (simp add: stored_names_def list_all_iff)

lemma option_table_stored: "option_table table \<Longrightarrow> stored_names (keys table)"
  using special_data_descriptor by (auto simp: option_table_def stored_names_iff list_all_iff)

lemma option_table_not_special: "option_table table \<Longrightarrow> x \<in> set (keys table) \<Longrightarrow> \<not> special_name x"
  by (simp add: option_table_def list_all_iff)

lemma setattr_stored: "\<not> data_descriptor key \<Longrightarrow> setattr self key v = Inr (setitem key v self)"
  by (simp add: setattr_def data_descriptor_def)

lemma setattr_Inl:
  "setattr self key v = Inl e \<Longrightarrow>
   (\<exists>m. e = AttributeError m) \<or> (\<exists>m. e = TypeError (CHR ''_'' # m))"
  by (auto simp: setattr_def split: if_splits pyval.splits)

lemma setattr_Inr:
  "setattr self key v = Inr s \<Longrightarrow> key \<noteq> ''__dict__'' \<Longrightarrow> s = setitem key v self"
  by (auto simp: setattr_def split: if_splits)

lemma updateall_stored: "stored_names (keys d) \<Longrightarrow> updateall self d = Inr (store_all self d)"
proof (induction d arbitrary: self)
  case Nil
  then show ?case by simp
next
  case (Cons p d)
  obtain k v where p: "p = (k, v)" by (cases p)
  from Cons.prems have "\<not> data_descriptor k" "stored_names (keys d)"
    by (simp_all add: p stored_names_def keys_def)
  with Cons.IH show ?case
    by (simp add: p setattr_stored)
qed

lemma updateall_Inl:
  "updateall self d = Inl e \<Longrightarrow>
   (\<exists>m. e = AttributeError m) \<or> (\<exists>m. e = TypeError (CHR ''_'' # m))"
proof (induction d arbitrary: self)
  case Nil
  then show ?case by simp
next
  case (Cons p d)
  obtain k v where p: "p = (k, v)" by (cases p)
  show ?case
  proof (cases "setattr self k v")
    case (Inl e')
    with Cons.prems have "e' = e" by (simp add: p)
    with Inl show ?thesis using setattr_Inl by blast
  next
    case (Inr self')
    with Cons.prems have "updateall self' d = Inl e" by (simp add: p)
    then show ?thesis by (rule Cons.IH)
  qed
qed

lemma updateall_Inr:
  "updateall self d = Inr s \<Longrightarrow> ''__dict__'' \<notin> set (keys d) \<Longrightarrow> s = store_all self d"
proof (induction d arbitrary: self)
  case Nil
  then show ?case by simp
next
  case (Cons p d)
  obtain k v where p: "p = (k, v)" by (cases p)
  from Cons.prems(2) have k: "k \<noteq> ''__dict__''" and d: "''__dict__'' \<notin> set (keys d)"
    by (auto simp: p keys_def)
  from Cons.prems(1) obtain self' where a: "setattr self k v = Inr self'"
    and u: "updateall self' d = Inr s"
    by (auto simp: p split: sum.splits)
  from setattr_Inr [OF a k] Cons.IH [OF u d] show ?case
    by (simp add: p)
qed

lemma Settings_Some:
  "d \<noteq> [] \<Longrightarrow> Settings table (Some d) = updateall [] d"
  by (simp add: Settings_def)

subsection \<open>The base instance\<close>

lemma Settings_option_table: "option_table table \<Longrightarrow> Settings table None = Inr (settings table)"
  by (simp add: Settings_def settings_def get_settings_from_pyfile_def updateall_stored
      option_table_stored)

lemma map_of_settings:
  "distinct (keys table) \<Longrightarrow> map_of (settings table) = map_of table"
  by (auto simp: settings_def get_settings_from_pyfile_def keys_def
      map_of_store_all fun_eq_iff split: option.splits)

lemma set_settings: "set (settings table) \<subseteq> set table"
  using set_store_all [of "[]" table]
  by (simp add: settings_def get_settings_from_pyfile_def)

lemma keys_settings: "set (keys (settings table)) = set (keys table)"
  using keys_store_all [of "[]" table]
  by (simp add: settings_def get_settings_from_pyfile_def keys_def)

lemma getattr_instance:
  "\<not> data_descriptor x \<Longrightarrow> map_of self x = Some v \<Longrightarrow> getattr table self x = Inr v"
  by (simp add: getattr_def data_descriptor_def)

lemma getattr_cong:
  "x \<noteq> ''__dict__'' \<Longrightarrow> map_of s x = map_of s' x \<Longrightarrow> getattr table s x = getattr table s' x"
  by (simp add: getattr_def)

lemma getattr_settings:
  assumes "distinct (keys table)" "x \<in> set (keys table)" "\<not> data_descriptor x"
  shows "getattr table (settings table) x = Inr (dict_get table x)"
proof -
  obtain v where "map_of table x = Some v"
    using assms(2) map_of_keys_Some by blast
  then have "map_of (settings table) x = Some v" "dict_get table x = v"
    using map_of_settings [OF assms(1)] by (simp_all add: dict_get_def)
  then show ?thesis
    using getattr_instance [OF assms(3)] by simp
qed

lemma getattr_values:
  "getattr table self x = Inr v \<Longrightarrow> x \<noteq> ''__weakref__'' \<Longrightarrow>
   \<forall>(k, w) \<in> set self. w \<noteq> PNone \<Longrightarrow> v \<noteq> PNone"
  by (auto simp: getattr_def class_attr_def split: option.splits if_splits dest: map_of_SomeD)

lemma settings_no_methods:
  assumes "option_table table"
  shows "map_of (settings table) ''_get_settings_from_pyfile'' = None"
    and "map_of (settings table) ''replace'' = None"
proof -
  have "\<not> special_name x" if "x \<in> set (keys (settings table))" for x
    using that assms by (simp add: keys_settings option_table_not_special)
  moreover have "special_name ''_get_settings_from_pyfile''" "special_name ''replace''"
    by (simp_all add: special_name_def)
  ultimately show "map_of (settings table) ''_get_settings_from_pyfile'' = None"
    and "map_of (settings table) ''replace'' = None"
    using map_of_keys_None by blast+
qed

lemma has_all_options_keys:
  assumes "set (keys table) \<subseteq> set (keys s)" "stored_names (keys table)"
  shows "has_all_options table s"
proof -
  have "\<exists>v. getattr table s x = Inr v" if "x \<in> set (keys table)" for x
  proof -
    from that assms(1) obtain v where "map_of s x = Some v"
      using map_of_keys_Some by blast
    moreover from that assms(2) have "\<not> data_descriptor x"
      by (simp add: stored_names_iff)
    ultimately show ?thesis using getattr_instance by blast
  qed
  then show ?thesis
    by (fastforce simp: has_all_options_def list_all_iff split: sum.splits)
qed

lemma has_all_options_settings: "stored_names (keys table) \<Longrightarrow> has_all_options table (settings table)"
  by (rule has_all_options_keys) (simp_all add: keys_settings)

lemma py_str_scalar: "scalar v \<Longrightarrow> py_str ostr1 v = py_str ostr2 v"
  by (cases v) simp_all

subsection \<open>The loops of replace\<close>

lemma none_check_None: "none_check kwds = None \<longleftrightarrow> (\<forall>(k, v) \<in> set kwds. v \<noteq> PNone)"
  by (induction kwds) (auto split: if_splits)

lemma none_check_Some:
  \<open>none_check kwds = Some e \<Longrightarrow>
   \<exists>k. (k, PNone) \<in> set kwds \<and> e = TypeError (''Invalid {"'' @ k @ ''": None}'')\<close>
proof (induction kwds)
  case Nil
  then show ?case by simp
next
  case (Cons p kwds)
  obtain k v where p: "p = (k, v)" by (cases p)
  show ?case
  proof (cases "v = PNone")
    case True
    with Cons.prems have \<open>e = TypeError (''Invalid {"'' @ k @ ''": None}'')\<close>
      by (simp add: p)
    with True show ?thesis
      unfolding p by (intro exI [of _ k]) simp
  next
    case False
    with Cons.prems have "none_check kwds = Some e" by (simp add: p)
    from Cons.IH [OF this] show ?thesis by auto
  qed
qed

lemma map_of_setdefault:
  "map_of (setdefault x v d) y =
     (case map_of d y of Some w \<Rightarrow> Some w | None \<Rightarrow> if y = x then Some v else None)"
proof (cases "x \<in> set (keys d)")
  case True
  then have "map_of d x \<noteq> None"
    by (simp add: keys_def map_of_eq_None_iff)
  with True show ?thesis
    by (auto simp: setdefault_def split: option.splits)
next
  case False
  then show ?thesis
    by (auto simp: setdefault_def map_add_def split: option.splits)
qed

lemma distinct_setdefault: "distinct (map fst d) \<Longrightarrow> distinct (map fst (setdefault x v d))"
  by (simp add: setdefault_def keys_def)

lemma set_setdefault: "set (setdefault x v d) \<subseteq> insert (x, v) (set d)"
  by (auto simp: setdefault_def)

lemma set_defaults_Inr:
  assumes "\<forall>x \<in> set xs. getattr table self x = Inr (g x)"
  shows "\<exists>kw. set_defaults table self xs kwds = Inr kw \<and>
           (distinct (map fst kwds) \<longrightarrow> distinct (map fst kw)) \<and>
           (\<forall>y. map_of kw y =
              (case map_of kwds y of Some w \<Rightarrow> Some w
               | None \<Rightarrow> if y \<in> set xs then Some (g y) else None))"
  using assms
proof (induction xs arbitrary: kwds)
  case Nil
  then show ?case by (auto split: option.splits)
next
  case (Cons x xs)
  from Cons.prems have x: "getattr table self x = Inr (g x)"
    and xs: "\<forall>x \<in> set xs. getattr table self x = Inr (g x)" by simp_all
  from Cons.IH [OF xs, of "setdefault x (g x) kwds"]
  obtain kw where kw: "set_defaults table self xs (setdefault x (g x) kwds) = Inr kw"
    "distinct (map fst (setdefault x (g x) kwds)) \<longrightarrow> distinct (map fst kw)"
    "\<forall>y. map_of kw y =
       (case map_of (setdefault x (g x) kwds) y of Some w \<Rightarrow> Some w
        | None \<Rightarrow> if y \<in> set xs then Some (g y) else None)"
    by blast
  have "set_defaults table self (x # xs) kwds = Inr kw"
    using x kw(1) by simp
  moreover have "distinct (map fst kwds) \<longrightarrow> distinct (map fst kw)"
    using kw(2) distinct_setdefault by blast
  moreover have "\<forall>y. map_of kw y =
       (case map_of kwds y of Some w \<Rightarrow> Some w
        | None \<Rightarrow> if y \<in> set (x # xs) then Some (g y) else None)"
    using kw(3) by (auto simp: map_of_setdefault split: option.splits)
  ultimately show ?case by blast
qed

lemma set_defaults_Inl:
  "set_defaults table self xs kwds = Inl e \<Longrightarrow> \<exists>x \<in> set xs. getattr table self x = Inl e"
  by (induction xs arbitrary: kwds) (auto split: sum.splits)

lemma set_defaults_set:
  "set_defaults table self xs kwds = Inr kw \<Longrightarrow>
   set kw \<subseteq> set kwds \<union> {(x, v). getattr table self x = Inr v}"
proof (induction xs arbitrary: kwds)
  case Nil
  then show ?case by auto
next
  case (Cons x xs)
  then obtain v where v: "getattr table self x = Inr v"
    and r: "set_defaults table self xs (setdefault x v kwds) = Inr kw"
    by (auto split: sum.splits)
  show ?case
    using Cons.IH [OF r] set_setdefault [of x v kwds] v by auto
qed


lemma keys_setdefault: "set (keys (setdefault x v d)) = insert x (set (keys d))"
  by (auto simp: setdefault_def keys_def)

lemma set_defaults_keys:
  "set_defaults table self xs kwds = Inr kw \<Longrightarrow> set xs \<union> set (keys kwds) \<subseteq> set (keys kw)"
proof (induction xs arbitrary: kwds)
  case Nil
  then show ?case by simp
next
  case (Cons x xs)
  then obtain v where "set_defaults table self xs (setdefault x v kwds) = Inr kw"
    by (auto split: sum.splits)
  from Cons.IH [OF this] show ?case
    by (auto simp: keys_setdefault)
qed

lemma set_defaults_keys_eq:
  "set_defaults table self xs kwds = Inr kw \<Longrightarrow> set (keys kw) = set xs \<union> set (keys kwds)"
proof (induction xs arbitrary: kwds)
  case Nil
  then show ?case by simp
next
  case (Cons x xs)
  then obtain v where "set_defaults table self xs (setdefault x v kwds) = Inr kw"
    by (auto split: sum.splits)
  from Cons.IH [OF this] show ?case
    by (auto simp: keys_setdefault)
qed

lemma set_defaults_entries:
  "set_defaults table self xs kwds = Inr kw \<Longrightarrow>
   set kw \<subseteq> set kwds \<union> {(x, v). x \<in> set xs \<and> getattr table self x = Inr v}"
proof (induction xs arbitrary: kwds)
  case Nil
  then show ?case by auto
next
  case (Cons x xs)
  then obtain v where v: "getattr table self x = Inr v"
    and r: "set_defaults table self xs (setdefault x v kwds) = Inr kw"
    by (auto split: sum.splits)
  show ?case
    using Cons.IH [OF r] set_setdefault [of x v kwds] v by auto
qed

subsection \<open>\<^verbatim>\<open>replace\<close>\<close>

text \<open>What \<^verbatim>\<open>replace\<close> hands to the constructor, when it gets that far.\<close>

lemma replace_unfold:
  assumes "none_check kwds = None" "map_of self ''_get_settings_from_pyfile'' = None"
    and "set_defaults table self (keys table) kwds = Inr kw"
  shows "replace table self mod_settings kwds =
     updateall []
       (if truthy mod_settings
        then setitem ''_mod_settings'' mod_settings (setitem ''_default'' (PBool False) kw)
        else setitem ''_default'' (PBool False) kw)"
  using assms
  by (simp add: replace_def get_settings_from_pyfile_def Let_def Settings_Some setitem_nonempty)

lemma replace_Inr_cases:
  assumes "replace table self mod_settings kwds = Inr s"
  obtains kw where "none_check kwds = None"
    and "set_defaults table self (keys table) kwds = Inr kw"
    and "updateall []
       (if truthy mod_settings
        then setitem ''_mod_settings'' mod_settings (setitem ''_default'' (PBool False) kw)
        else setitem ''_default'' (PBool False) kw) = Inr s"
proof -
  from assms have nn: "none_check kwds = None"
    by (auto simp: replace_def split: option.splits)
  from assms nn have sh: "map_of self ''_get_settings_from_pyfile'' = None"
    by (auto simp: replace_def split: option.splits)
  from assms nn sh obtain kw where kw: "set_defaults table self (keys table) kwds = Inr kw"
    by (auto simp: replace_def get_settings_from_pyfile_def split: sum.splits)
  from replace_unfold [OF nn sh kw, of mod_settings] assms that [OF nn kw] show ?thesis
    by simp
qed

lemma replace_Inr:
  assumes nn: "\<forall>(k, v) \<in> set kwds. v \<noteq> PNone"
    and g: "\<forall>x \<in> set (keys table). getattr table self x = Inr (g x)"
    and dk: "distinct (map fst kwds)"
    and sk: "stored_names (keys kwds)" and st: "stored_names (keys table)"
    and sh: "map_of self ''_get_settings_from_pyfile'' = None"
  shows "\<exists>s. replace table self mod_settings kwds = Inr s \<and>
     (\<forall>y. map_of s y =
        (if truthy mod_settings \<and> y = ''_mod_settings'' then Some mod_settings
         else if y = ''_default'' then Some (PBool False)
         else case map_of kwds y of Some w \<Rightarrow> Some w
              | None \<Rightarrow> if y \<in> set (keys table) then Some (g y) else None))"
proof -
  from set_defaults_Inr [OF g, of kwds]
  obtain kw where kw: "set_defaults table self (keys table) kwds = Inr kw"
    "distinct (map fst kw)"
    "\<forall>y. map_of kw y =
       (case map_of kwds y of Some w \<Rightarrow> Some w
        | None \<Rightarrow> if y \<in> set (keys table) then Some (g y) else None)"
    using dk by blast
  define kwds3 where
    "kwds3 = (if truthy mod_settings
        then setitem ''_mod_settings'' mod_settings (setitem ''_default'' (PBool False) kw)
        else setitem ''_default'' (PBool False) kw)"
  have d3: "distinct (map fst kwds3)"
    using kw(2) by (simp add: kwds3_def distinct_setitem)
  have "stored_names (keys kw)"
    using sk st set_defaults_keys_eq [OF kw(1)] by (auto simp: stored_names_iff)
  then have s3: "stored_names (keys kwds3)"
    by (auto simp: kwds3_def stored_names_iff keys_setitem data_descriptor_def)
  have r: "replace table self mod_settings kwds = Inr (store_all [] kwds3)"
    using replace_unfold [OF _ sh kw(1), of mod_settings] nn updateall_stored [OF s3]
    by (simp add: none_check_None kwds3_def)
  have "map_of (store_all [] kwds3) y =
        (if truthy mod_settings \<and> y = ''_mod_settings'' then Some mod_settings
         else if y = ''_default'' then Some (PBool False)
         else case map_of kwds y of Some w \<Rightarrow> Some w
              | None \<Rightarrow> if y \<in> set (keys table) then Some (g y) else None)" for y
  proof -
    have "map_of (store_all [] kwds3) y = map_of kwds3 y"
      by (simp add: map_of_store_all [OF d3] split: option.splits)
    then show ?thesis
      using kw(3) by (simp add: kwds3_def map_of_setitem)
  qed
  with r show ?thesis by blast
qed

lemma replace_Inl:
  assumes "replace table self mod_settings kwds = Inl e"
  shows \<open>(\<exists>k. (k, PNone) \<in> set kwds \<and> e = TypeError (''Invalid {"'' @ k @ ''": None}''))
     \<or> (\<exists>m. e = AttributeError m) \<or> (\<exists>m. e = NotModelled m)
     \<or> (\<exists>m. e = TypeError (CHR ''_'' # m)) \<or> (\<exists>m. e = TypeError (CHR 0x27 # m))\<close>
proof (cases "none_check kwds")
  case (Some e')
  with assms have "e' = e" by (simp add: replace_def)
  with Some none_check_Some show ?thesis by blast
next
  case nn: None
  show ?thesis
  proof (cases "map_of self ''_get_settings_from_pyfile''")
    case (Some v)
    with assms nn have "e = not_callable v" by (simp add: replace_def)
    then show ?thesis by (simp add: not_callable_def quoted_def)
  next
    case sh: None
    show ?thesis
    proof (cases "set_defaults table self (keys table) kwds")
      case (Inl e')
      with assms nn sh have "e' = e"
        by (simp add: replace_def get_settings_from_pyfile_def)
      with Inl obtain x where "getattr table self x = Inl e"
        using set_defaults_Inl by blast
      then show ?thesis
        by (auto simp: getattr_def split: option.splits if_splits)
    next
      case (Inr kw)
      from replace_unfold [OF nn sh Inr, of mod_settings] assms updateall_Inl show ?thesis
        by metis
    qed
  qed
qed

lemma replace_succeeds:
  assumes "has_all_options table self" "none_check kwds = None"
    and "stored_names (keys kwds)" "stored_names (keys table)"
    and "map_of self ''_get_settings_from_pyfile'' = None"
  shows "\<exists>s. replace table self mod_settings kwds = Inr s"
proof -
  define g where "g x = (case getattr table self x of Inr v \<Rightarrow> v | Inl e \<Rightarrow> PNone)" for x
  have "\<forall>x \<in> set (keys table). getattr table self x = Inr (g x)"
    using assms(1) by (auto simp: has_all_options_def list_all_iff g_def split: sum.splits)
  from set_defaults_Inr [OF this, of kwds]
  obtain kw where kw: "set_defaults table self (keys table) kwds = Inr kw" by blast
  let ?k3 = "if truthy mod_settings
        then setitem ''_mod_settings'' mod_settings (setitem ''_default'' (PBool False) kw)
        else setitem ''_default'' (PBool False) kw"
  have "stored_names (keys kw)"
    using assms(3,4) set_defaults_keys_eq [OF kw] by (auto simp: stored_names_iff)
  then have "stored_names (keys ?k3)"
    by (auto simp: stored_names_iff keys_setitem data_descriptor_def)
  from replace_unfold [OF assms(2,5) kw, of mod_settings] updateall_stored [OF this]
  show ?thesis by simp
qed

lemma replace_store_all:
  assumes r: "replace table self mod_settings kwds = Inr s"
    and nd: "''__dict__'' \<notin> set (keys kwds)" "''__dict__'' \<notin> set (keys table)"
  obtains kw where "none_check kwds = None"
    and "set_defaults table self (keys table) kwds = Inr kw"
    and "s = store_all []
       (if truthy mod_settings
        then setitem ''_mod_settings'' mod_settings (setitem ''_default'' (PBool False) kw)
        else setitem ''_default'' (PBool False) kw)"
proof -
  from r obtain kw where nn: "none_check kwds = None"
    and kw: "set_defaults table self (keys table) kwds = Inr kw"
    and u: "updateall []
       (if truthy mod_settings
        then setitem ''_mod_settings'' mod_settings (setitem ''_default'' (PBool False) kw)
        else setitem ''_default'' (PBool False) kw) = Inr s"
    by (rule replace_Inr_cases)
  have "''__dict__'' \<notin> set (keys kw)"
    using nd set_defaults_keys_eq [OF kw] by simp
  then have "''__dict__'' \<notin> set (keys
       (if truthy mod_settings
        then setitem ''_mod_settings'' mod_settings (setitem ''_default'' (PBool False) kw)
        else setitem ''_default'' (PBool False) kw))"
    by (simp add: keys_setitem)
  from updateall_Inr [OF u this] that [OF nn kw] show ?thesis by simp
qed

lemma replace_values:
  assumes r: "replace table self mod_settings kwds = Inr s"
    and self: "\<forall>(k, w) \<in> set self. w \<noteq> PNone"
    and nd: "''__dict__'' \<notin> set (keys kwds)" and st: "stored_names (keys table)"
  shows "\<forall>(k, v) \<in> set s. v \<noteq> PNone"
proof -
  have t: "''__dict__'' \<notin> set (keys table)" "''__weakref__'' \<notin> set (keys table)"
    using st by (auto simp: stored_names_iff data_descriptor_def)
  from r nd t(1) obtain kw where nn: "none_check kwds = None"
    and kw: "set_defaults table self (keys table) kwds = Inr kw"
    and s: "s = store_all []
       (if truthy mod_settings
        then setitem ''_mod_settings'' mod_settings (setitem ''_default'' (PBool False) kw)
        else setitem ''_default'' (PBool False) kw)"
    by (rule replace_store_all)
  have 1: "v \<noteq> PNone" if "(k, v) \<in> set kw" for k v
  proof -
    from that set_defaults_entries [OF kw]
    consider "(k, v) \<in> set kwds" | "k \<in> set (keys table)" "getattr table self k = Inr v"
      by auto
    then show ?thesis
    proof cases
      case 1
      with nn show ?thesis by (auto simp: none_check_None)
    next
      case 2
      with t(2) have "k \<noteq> ''__weakref__''" by auto
      from getattr_values [OF 2(2) this self] show ?thesis .
    qed
  qed
  have 2: "v \<noteq> PNone" if "(k, v) \<in> set (setitem ''_default'' (PBool False) kw)" for k v
    using that 1 set_setitem [of "''_default''" "PBool False" kw] by auto
  have 3: "v \<noteq> PNone"
    if "(k, v) \<in> set (if truthy mod_settings
        then setitem ''_mod_settings'' mod_settings (setitem ''_default'' (PBool False) kw)
        else setitem ''_default'' (PBool False) kw)" for k v
  proof (cases "truthy mod_settings")
    case True
    then have "mod_settings \<noteq> PNone" by auto
    with True that 2
      set_setitem [of "''_mod_settings''" mod_settings "setitem ''_default'' (PBool False) kw"]
    show ?thesis by auto
  next
    case False
    with that 2 show ?thesis by simp
  qed
  show ?thesis
    unfolding s using 3 set_store_all by fastforce
qed

lemma replace_keys:
  assumes "replace table self mod_settings kwds = Inr s"
    and "''__dict__'' \<notin> set (keys kwds)" "''__dict__'' \<notin> set (keys table)"
  shows "set (keys table) \<subseteq> set (keys s)"
proof -
  from assms obtain kw where kw: "set_defaults table self (keys table) kwds = Inr kw"
    and s: "s = store_all []
       (if truthy mod_settings
        then setitem ''_mod_settings'' mod_settings (setitem ''_default'' (PBool False) kw)
        else setitem ''_default'' (PBool False) kw)"
    by (rule replace_store_all)
  show ?thesis
    unfolding s using set_defaults_keys_eq [OF kw]
    by (auto simp: keys_store_all keys_setitem)
qed

subsection \<open>The wrapper, case by case\<close>

lemma wrapper_falsy:
  assumes "\<not> truthy (dict_get kwargs ''settings'')"
  shows "wrapper table f args kwargs =
     Inr (f args (setitem ''settings'' (PSettings (settings table)) kwargs))"
  using assms by (simp add: wrapper_def py_or_def Let_def setitem_setitem)

lemma wrapper_Settings:
  assumes "dict_get kwargs ''settings'' = PSettings a"
  shows "wrapper table f args kwargs = Inr (f args (setitem ''settings'' (PSettings a) kwargs))"
  using assms by (simp add: wrapper_def py_or_def Let_def setitem_setitem)

lemma wrapper_dict:
  assumes "dict_get kwargs ''settings'' = PDict d" "d \<noteq> []"
  shows "wrapper table f args kwargs =
     (case call_replace table (settings table) (PDict d) d of
        Inl e \<Rightarrow> Inl e
      | Inr s \<Rightarrow> Inr (f args (setitem ''settings'' (PSettings s) kwargs)))"
  using assms by (simp add: wrapper_def py_or_def Let_def setitem_setitem split: sum.splits)

lemma wrapper_other:
  assumes "truthy (dict_get kwargs ''settings'')"
    "\<not> isinstance_dict (dict_get kwargs ''settings'')"
    "\<not> isinstance_Settings (dict_get kwargs ''settings'')"
  shows "wrapper table f args kwargs =
     Inl (TypeError ''settings can only be either dict or instance of Settings class'')"
  using assms by (cases "dict_get kwargs ''settings''") (simp_all add: wrapper_def py_or_def Let_def)

lemma wrapper_Inr:
  assumes "wrapper table f args kwargs = Inr r"
  shows "\<exists>s. r = f args (setitem ''settings'' (PSettings s) kwargs) \<and>
     wrapper table received args kwargs = Inr (PSettings s)"
proof (cases "truthy (dict_get kwargs ''settings'')")
  case False
  with assms show ?thesis
    by (auto simp: wrapper_falsy received_def dict_get_setitem)
next
  case True
  show ?thesis
  proof (cases "dict_get kwargs ''settings''")
    case (PDict d)
    with True have d: "d \<noteq> []" by simp
    from assms show ?thesis
      unfolding wrapper_dict [OF PDict d]
      by (auto simp: received_def dict_get_setitem split: sum.splits)
  next
    case (PSettings a)
    with assms show ?thesis
      by (auto simp: wrapper_Settings received_def dict_get_setitem)
  qed (use True assms in \<open>simp_all add: wrapper_other\<close>)
qed

lemma call_replace_eq:
  "''mod_settings'' \<notin> set (keys d) \<Longrightarrow> ''self'' \<notin> set (keys d) \<Longrightarrow>
   map_of self ''replace'' = None \<Longrightarrow>
   call_replace table self mod_settings d = replace table self mod_settings d"
  by (simp add: call_replace_def)

lemma call_replace_Inl:
  assumes "call_replace table self mod_settings d = Inl e"
  shows "e \<noteq> TypeError ''settings can only be either dict or instance of Settings class''"
proof (cases "call_replace table self mod_settings d = replace table self mod_settings d")
  case True
  with assms have "replace table self mod_settings d = Inl e" by simp
  from replace_Inl [OF this] show ?thesis by auto
next
  case False
  with assms show ?thesis
    by (auto simp: call_replace_def not_callable_def quoted_def split: if_splits option.splits)
qed

lemma call_replace_Inr:
  "call_replace table self mod_settings d = Inr s \<Longrightarrow> replace table self mod_settings d = Inr s"
  by (auto simp: call_replace_def split: if_splits option.splits)

subsection \<open>Every instance handed out carries every option\<close>

lemma snapshot_has_all_options:
  assumes "snapshot table s" "option_table table"
  shows "has_all_options table s"
  using assms(1)
proof (induction rule: snapshot.induct)
  case base
  show ?case by (rule has_all_options_settings) (rule option_table_stored [OF assms(2)])
next
  case (overlay self kwds mod_settings s)
  have "''__dict__'' \<notin> set (keys table)"
    using option_table_stored [OF assms(2)] by (auto simp: stored_names_iff data_descriptor_def)
  from replace_keys [OF overlay.hyps(3) overlay.hyps(2) this] show ?case
    by (rule has_all_options_keys) (rule option_table_stored [OF assms(2)])
next
  case (injected args kwargs s)
  show ?case
  proof (cases "truthy (dict_get kwargs ''settings'')")
    case False
    with injected.hyps(1) have "s = settings table"
      by (simp add: wrapper_falsy received_def dict_get_setitem)
    then show ?thesis
      by (simp add: has_all_options_settings option_table_stored [OF assms(2)])
  next
    case True
    show ?thesis
    proof (cases "dict_get kwargs ''settings''")
      case (PDict d)
      with True have d: "d \<noteq> []" by simp
      from injected.hyps(1) have "call_replace table (settings table) (PDict d) d = Inr s"
        unfolding wrapper_dict [OF PDict d]
        by (auto simp: received_def dict_get_setitem split: sum.splits)
      then have r: "replace table (settings table) (PDict d) d = Inr s"
        by (rule call_replace_Inr)
      have "''__dict__'' \<notin> set (keys table)"
        using option_table_stored [OF assms(2)]
        by (auto simp: stored_names_iff data_descriptor_def)
      moreover have "''__dict__'' \<notin> set (keys d)"
        using injected.hyps(3) PDict by simp
      ultimately show ?thesis
        using replace_keys [OF r] has_all_options_keys option_table_stored [OF assms(2)]
        by blast
    next
      case (PSettings a)
      with injected.hyps(2) show ?thesis by simp
    qed (use True injected.hyps(1) in \<open>simp_all add: wrapper_other\<close>)
  qed
qed

subsection \<open>No \<^verbatim>\<open>None\<close> in the instance dictionary\<close>

lemma snapshot_values:
  assumes "snapshot table s" "option_table table" "\<forall>(k, v) \<in> set table. v \<noteq> PNone"
  shows "\<forall>(k, v) \<in> set s. v \<noteq> PNone"
proof -
  have st: "stored_names (keys table)"
    by (rule option_table_stored [OF assms(2)])
  have b: "\<forall>(k, v) \<in> set (settings table). v \<noteq> PNone"
    using assms(3) set_settings [of table] by auto
  from assms(1) show ?thesis
  proof (induction rule: snapshot.induct)
    case base
    show ?case by (rule b)
  next
    case (overlay self kwds mod_settings s)
    from replace_values [OF overlay.hyps(3) overlay.IH overlay.hyps(2) st] show ?case .
  next
    case (injected args kwargs s)
    show ?case
    proof (cases "truthy (dict_get kwargs ''settings'')")
      case False
      with injected.hyps(1) have "s = settings table"
        by (simp add: wrapper_falsy received_def dict_get_setitem)
      with b show ?thesis by simp
    next
      case True
      show ?thesis
      proof (cases "dict_get kwargs ''settings''")
        case (PDict d)
        with True have d: "d \<noteq> []" by simp
        from injected.hyps(1) have "call_replace table (settings table) (PDict d) d = Inr s"
          unfolding wrapper_dict [OF PDict d]
          by (auto simp: received_def dict_get_setitem split: sum.splits)
        then have r: "replace table (settings table) (PDict d) d = Inr s"
          by (rule call_replace_Inr)
        have "''__dict__'' \<notin> set (keys d)"
          using injected.hyps(3) PDict by simp
        from replace_values [OF r b this st] show ?thesis .
      next
        case (PSettings a)
        with injected.hyps(2) show ?thesis by simp
      qed (use True injected.hyps(1) in \<open>simp_all add: wrapper_other\<close>)
    qed
  qed
qed

subsection \<open>Two digests, computed\<close>

text \<open>Rotation as two shifts, for the sixteen shift amounts of MD5, and the lists of
  indices written out; with these the simplifier runs the digest on a given text.\<close>

lemma word_rotl_eq_or:
  fixes w :: "'a::len word"
  assumes "k < LENGTH('a)"
  shows "word_rotl k w = push_bit k w OR drop_bit (LENGTH('a) - k) w"
proof (rule bit_word_eqI)
  fix n
  assume n: "n < LENGTH('a)"
  show "bit (word_rotl k w) n \<longleftrightarrow> bit (push_bit k w OR drop_bit (LENGTH('a) - k) w) n"
  proof (cases "k \<le> n")
    case True
    then have "(n + (LENGTH('a) - k)) mod LENGTH('a) = n - k"
      using assms n by (simp add: mod_if)
    moreover have "\<not> bit w (LENGTH('a) - k + n)"
      using True assms by (auto dest: bit_imp_le_length)
    ultimately show ?thesis
      using True assms n
      by (simp add: bit_word_rotl_iff bit_or_iff bit_push_bit_iff bit_drop_bit_eq)
  next
    case False
    then have "(n + (LENGTH('a) - k)) mod LENGTH('a) = LENGTH('a) - k + n"
      using assms n by (simp add: add.commute)
    then show ?thesis
      using False assms n
      by (simp add: bit_word_rotl_iff bit_or_iff bit_push_bit_iff bit_drop_bit_eq)
  qed
qed

lemma md5_rotations:
  fixes w :: "32 word"
  shows "word_rotl 7 w = push_bit 7 w OR drop_bit 25 w"
    and "word_rotl 12 w = push_bit 12 w OR drop_bit 20 w"
    and "word_rotl 17 w = push_bit 17 w OR drop_bit 15 w"
    and "word_rotl 22 w = push_bit 22 w OR drop_bit 10 w"
    and "word_rotl 5 w = push_bit 5 w OR drop_bit 27 w"
    and "word_rotl 9 w = push_bit 9 w OR drop_bit 23 w"
    and "word_rotl 14 w = push_bit 14 w OR drop_bit 18 w"
    and "word_rotl 20 w = push_bit 20 w OR drop_bit 12 w"
    and "word_rotl 4 w = push_bit 4 w OR drop_bit 28 w"
    and "word_rotl 11 w = push_bit 11 w OR drop_bit 21 w"
    and "word_rotl 16 w = push_bit 16 w OR drop_bit 16 w"
    and "word_rotl 23 w = push_bit 23 w OR drop_bit 9 w"
    and "word_rotl 6 w = push_bit 6 w OR drop_bit 26 w"
    and "word_rotl 10 w = push_bit 10 w OR drop_bit 22 w"
    and "word_rotl 15 w = push_bit 15 w OR drop_bit 17 w"
    and "word_rotl 21 w = push_bit 21 w OR drop_bit 11 w"
  using word_rotl_eq_or [where 'a = 32 and w = w] by simp_all

lemma upt_8: "[0..<8] = [0, 1, 2, 3, 4, 5, 6, 7]"
  by (simp add: eval_nat_numeral)

lemma upt_64:
  "[0..<64] =
    [0, 1, 2, 3, 4, 5, 6, 7, 8, 9, 10, 11, 12, 13, 14, 15,
     16, 17, 18, 19, 20, 21, 22, 23, 24, 25, 26, 27, 28, 29, 30, 31,
     32, 33, 34, 35, 36, 37, 38, 39, 40, 41, 42, 43, 44, 45, 46, 47,
     48, 49, 50, 51, 52, 53, 54, 55, 56, 57, 58, 59, 60, 61, 62, 63]"
  by (simp add: eval_nat_numeral)

lemma replicate_2: "replicate 2 (0 :: 8 word) = [0, 0]"
  by (simp add: eval_nat_numeral)

lemma md5_pad_run1:
  "md5_pad ''X-<dateparser.conf.Settings object at 0x7f1c2a3b4d60>'' =
    [0x58, 0x2d, 0x3c, 0x64, 0x61, 0x74, 0x65, 0x70, 0x61, 0x72, 0x73, 0x65,
     0x72, 0x2e, 0x63, 0x6f, 0x6e, 0x66, 0x2e, 0x53, 0x65, 0x74, 0x74, 0x69,
     0x6e, 0x67, 0x73, 0x20, 0x6f, 0x62, 0x6a, 0x65, 0x63, 0x74, 0x20, 0x61,
     0x74, 0x20, 0x30, 0x78, 0x37, 0x66, 0x31, 0x63, 0x32, 0x61, 0x33, 0x62,
     0x34, 0x64, 0x36, 0x30, 0x3e, 0x80, 0x00, 0x00, 0xa8, 0x01, 0x00, 0x00,
     0x00, 0x00, 0x00, 0x00]"
  by (simp add: md5_pad_def Let_def upt_8 replicate_2)

lemma le_words_run1:
  "le_words
    [0x58, 0x2d, 0x3c, 0x64, 0x61, 0x74, 0x65, 0x70, 0x61, 0x72, 0x73, 0x65,
     0x72, 0x2e, 0x63, 0x6f, 0x6e, 0x66, 0x2e, 0x53, 0x65, 0x74, 0x74, 0x69,
     0x6e, 0x67, 0x73, 0x20, 0x6f, 0x62, 0x6a, 0x65, 0x63, 0x74, 0x20, 0x61,
     0x74, 0x20, 0x30, 0x78, 0x37, 0x66, 0x31, 0x63, 0x32, 0x61, 0x33, 0x62,
     0x34, 0x64, 0x36, 0x30, 0x3e, 0x80, 0x00, 0x00, 0xa8, 0x01, 0x00, 0x00,
     0x00, 0x00, 0x00, 0x00] =
    [0x643c2d58, 0x70657461, 0x65737261, 0x6f632e72, 0x532e666e, 0x69747465,
     0x2073676e, 0x656a626f, 0x61207463, 0x78302074, 0x63316637, 0x62336132,
     0x30366434, 0x0000803e, 0x000001a8, 0x00000000]"
  by simp

lemma md5_block_run1:
  "md5_block (0x67452301, 0xefcdab89, 0x98badcfe, 0x10325476)
    [0x643c2d58, 0x70657461, 0x65737261, 0x6f632e72, 0x532e666e, 0x69747465,
     0x2073676e, 0x656a626f, 0x61207463, 0x78302074, 0x63316637, 0x62336132,
     0x30366434, 0x0000803e, 0x000001a8, 0x00000000] =
    (0xc6cd54d3, 0x4b861746, 0xd4a1f1fd, 0xce0d3e64)"
  by (simp add: md5_block_def upt_64 md5_step_def md5_K_def md5_s_def md5_rotations)

lemma md5_hexdigest_run1:
  "md5_hexdigest ''X-<dateparser.conf.Settings object at 0x7f1c2a3b4d60>'' =
    ''d354cdc64617864bfdf1a1d4643e0dce''"
proof -
  have "md5_digest ''X-<dateparser.conf.Settings object at 0x7f1c2a3b4d60>'' =
      (0xc6cd54d3, 0x4b861746, 0xd4a1f1fd, 0xce0d3e64)"
    by (simp add: md5_digest_def Let_def md5_pad_run1 le_words_run1 md5_block_run1)
  then show ?thesis
    by (simp add: md5_hexdigest_def hex_word_le_def hex_byte_def)
qed

lemma md5_pad_run2:
  "md5_pad ''X-<dateparser.conf.Settings object at 0x7f9e8d7c6b50>'' =
    [0x58, 0x2d, 0x3c, 0x64, 0x61, 0x74, 0x65, 0x70, 0x61, 0x72, 0x73, 0x65,
     0x72, 0x2e, 0x63, 0x6f, 0x6e, 0x66, 0x2e, 0x53, 0x65, 0x74, 0x74, 0x69,
     0x6e, 0x67, 0x73, 0x20, 0x6f, 0x62, 0x6a, 0x65, 0x63, 0x74, 0x20, 0x61,
     0x74, 0x20, 0x30, 0x78, 0x37, 0x66, 0x39, 0x65, 0x38, 0x64, 0x37, 0x63,
     0x36, 0x62, 0x35, 0x30, 0x3e, 0x80, 0x00, 0x00, 0xa8, 0x01, 0x00, 0x00,
     0x00, 0x00, 0x00, 0x00]"
  by (simp add: md5_pad_def Let_def upt_8 replicate_2)

lemma le_words_run2:
  "le_words
    [0x58, 0x2d, 0x3c, 0x64, 0x61, 0x74, 0x65, 0x70, 0x61, 0x72, 0x73, 0x65,
     0x72, 0x2e, 0x63, 0x6f, 0x6e, 0x66, 0x2e, 0x53, 0x65, 0x74, 0x74, 0x69,
     0x6e, 0x67, 0x73, 0x20, 0x6f, 0x62, 0x6a, 0x65, 0x63, 0x74, 0x20, 0x61,
     0x74, 0x20, 0x30, 0x78, 0x37, 0x66, 0x39, 0x65, 0x38, 0x64, 0x37, 0x63,
     0x36, 0x62, 0x35, 0x30, 0x3e, 0x80, 0x00, 0x00, 0xa8, 0x01, 0x00, 0x00,
     0x00, 0x00, 0x00, 0x00] =
    [0x643c2d58, 0x70657461, 0x65737261, 0x6f632e72, 0x532e666e, 0x69747465,
     0x2073676e, 0x656a626f, 0x61207463, 0x78302074, 0x65396637, 0x63376438,
     0x30356236, 0x0000803e, 0x000001a8, 0x00000000]"
  by simp

lemma md5_block_run2:
  "md5_block (0x67452301, 0xefcdab89, 0x98badcfe, 0x10325476)
    [0x643c2d58, 0x70657461, 0x65737261, 0x6f632e72, 0x532e666e, 0x69747465,
     0x2073676e, 0x656a626f, 0x61207463, 0x78302074, 0x65396637, 0x63376438,
     0x30356236, 0x0000803e, 0x000001a8, 0x00000000] =
    (0xec02e533, 0x52132421, 0xe7234818, 0xc8efb376)"
  by (simp add: md5_block_def upt_64 md5_step_def md5_K_def md5_s_def md5_rotations)

lemma md5_hexdigest_run2:
  "md5_hexdigest ''X-<dateparser.conf.Settings object at 0x7f9e8d7c6b50>'' =
    ''33e502ec21241352184823e776b3efc8''"
proof -
  have "md5_digest ''X-<dateparser.conf.Settings object at 0x7f9e8d7c6b50>'' =
      (0xec02e533, 0x52132421, 0xe7234818, 0xc8efb376)"
    by (simp add: md5_digest_def Let_def md5_pad_run2 le_words_run2 md5_block_run2)
  then show ?thesis
    by (simp add: md5_hexdigest_def hex_word_le_def hex_byte_def)
qed

section \<open>Properties\<close>

text \<open>
  Claim C3. \<^verbatim>\<open>Settings.get_key\<close> returns the literal \<^verbatim>\<open>default\<close> for \<^verbatim>\<open>None\<close> and for
  the empty dictionary. For any other dictionary it returns the MD5 hex digest of the
  concatenation, with no separator, of a list \<open>ks\<close> that is sorted lexicographically and
  holds exactly the strings \<^verbatim>\<open><name>-<str(value)>\<close> of the entries; the digest has 32
  characters, all of them hexadecimal digits.
\<close>

theorem get_key_spec:
  "get_key ostr None = ''default'' \<and> get_key ostr (Some []) = ''default'' \<and>
   (d \<noteq> [] \<longrightarrow>
      (\<exists>ks. mset ks = mset (map (\<lambda>(name, v). name @ ''-'' @ py_str ostr v) d) \<and> sorted ks \<and>
         get_key ostr (Some d) = md5_hexdigest (concat ks)) \<and>
      length (get_key ostr (Some d)) = 32 \<and>
      set (get_key ostr (Some d)) \<subseteq> set ''0123456789abcdef'')"
proof (intro conjI impI)
  show "get_key ostr None = ''default''" "get_key ostr (Some []) = ''default''"
    by (simp_all add: get_key_def)
next
  assume d: "d \<noteq> []"
  have frag: "key_fragment ostr = (\<lambda>(name, v). name @ ''-'' @ py_str ostr v)"
    by (auto simp: key_fragment_def fun_eq_iff)
  let ?ks = "sort (map (key_fragment ostr) d)"
  have key: "get_key ostr (Some d) = md5_hexdigest (concat ?ks)"
    using d by (simp add: get_key_def)
  have "mset ?ks = mset (map (\<lambda>(name, v). name @ ''-'' @ py_str ostr v) d)"
    by (simp add: frag)
  moreover have "sorted ?ks" by simp
  ultimately show "\<exists>ks. mset ks = mset (map (\<lambda>(name, v). name @ ''-'' @ py_str ostr v) d) \<and>
      sorted ks \<and> get_key ostr (Some d) = md5_hexdigest (concat ks)"
    using key by blast
  show "length (get_key ostr (Some d)) = 32"
    unfolding key by (rule length_md5_hexdigest)
  show "set (get_key ostr (Some d)) \<subseteq> set ''0123456789abcdef''"
    unfolding key by (rule set_md5_hexdigest)
qed

theorem get_key_spec_witness:
  "[(''PREFER_DATES_FROM'', PStr ''past'')] \<noteq> [] \<and>
   length (get_key opaque_str (Some [(''PREFER_DATES_FROM'', PStr ''past'')])) = 32 \<and>
   get_key opaque_str (Some [(''PREFER_DATES_FROM'', PStr ''past'')]) =
     md5_hexdigest ''PREFER_DATES_FROM-past''"
proof -
  have ne: "[(''PREFER_DATES_FROM'', PStr ''past'')] \<noteq> []" by simp
  from get_key_spec [of opaque_str "[(''PREFER_DATES_FROM'', PStr ''past'')]"] ne
  obtain ks where ks: "mset ks = {#''PREFER_DATES_FROM-past''#}"
    "get_key opaque_str (Some [(''PREFER_DATES_FROM'', PStr ''past'')]) = md5_hexdigest (concat ks)"
    and len: "length (get_key opaque_str (Some [(''PREFER_DATES_FROM'', PStr ''past'')])) = 32"
    by auto
  from ks(1) have "ks = [''PREFER_DATES_FROM-past'']"
    by (metis mset_single_iff_right)
  with ks(2) len ne show ?thesis by simp
qed

text \<open>
  Claim C10. \<^verbatim>\<open>Settings.get_key\<close> is not injective: \<^verbatim>\<open>{"A": 1}\<close> and \<^verbatim>\<open>{"A": "1"}\<close>
  differ as mappings and have the same key, and so do \<^verbatim>\<open>{"a": "b-c"}\<close> and
  \<^verbatim>\<open>{"a-b": "c"}\<close>.
\<close>

theorem get_key_not_injective:
  "map_of [(''A'', PInt 1)] \<noteq> map_of [(''A'', PStr ''1'')] \<and>
   get_key ostr (Some [(''A'', PInt 1)]) = get_key ostr (Some [(''A'', PStr ''1'')]) \<and>
   map_of [(''a'', PStr ''b-c'')] \<noteq> map_of [(''a-b'', PStr ''c'')] \<and>
   get_key ostr (Some [(''a'', PStr ''b-c'')]) = get_key ostr (Some [(''a-b'', PStr ''c'')])"
proof -
  have "map_of [(''A'', PInt 1)] ''A'' \<noteq> map_of [(''A'', PStr ''1'')] ''A''" by simp
  then have 1: "map_of [(''A'', PInt 1)] \<noteq> map_of [(''A'', PStr ''1'')]" by metis
  have "map_of [(''a'', PStr ''b-c'')] ''a'' \<noteq> map_of [(''a-b'', PStr ''c'')] ''a''" by simp
  then have 2: "map_of [(''a'', PStr ''b-c'')] \<noteq> map_of [(''a-b'', PStr ''c'')]" by metis
  have 3: "str_int 1 = ''1''" by (simp add: str_int_def str_nat.simps)
  show ?thesis using 1 2 by (simp add: get_key_def key_fragment_def 3)
qed

text \<open>
  Claim C4 as stated fails in its second half: \<^verbatim>\<open>str()\<close> of an instance of
  \<^verbatim>\<open>Settings\<close> holds the address of the object, so the same override set has one key
  in one run and another key in the next.
\<close>

theorem get_key_run_counterexample:
  "get_key (str_at ''0x7f1c2a3b4d60'') (Some [(''X'', PSettings [])]) =
     ''d354cdc64617864bfdf1a1d4643e0dce'' \<and>
   get_key (str_at ''0x7f9e8d7c6b50'') (Some [(''X'', PSettings [])]) =
     ''33e502ec21241352184823e776b3efc8'' \<and>
   get_key (str_at ''0x7f1c2a3b4d60'') (Some [(''X'', PSettings [])]) \<noteq>
   get_key (str_at ''0x7f9e8d7c6b50'') (Some [(''X'', PSettings [])])"
  by (simp add: get_key_def key_fragment_def str_at_def md5_hexdigest_run1 md5_hexdigest_run2)

text \<open>
  Claim C4, amended. Two dictionaries with the same key/value pairs, inserted in any
  order, have the same key; and the key is the same from run to run when \<^verbatim>\<open>str()\<close> of
  every value is (as it is for \<^verbatim>\<open>None\<close>, booleans, integers and strings, by
  \<open>py_str_scalar\<close>): \<open>ostr1\<close> and \<open>ostr2\<close> are what two runs print for the other
  values.
\<close>

theorem get_key_order_independent:
  assumes "distinct (keys m1)" "distinct (keys m2)" "set m1 = set m2"
  shows "get_key ostr (Some m1) = get_key ostr (Some m2) \<and>
         ((\<forall>(k, v) \<in> set m1. py_str ostr1 v = py_str ostr2 v) \<longrightarrow>
            get_key ostr1 (Some m1) = get_key ostr2 (Some m2))"
proof -
  have e: "m1 = [] \<longleftrightarrow> m2 = []"
    using assms(3) by (metis set_empty)
  have order: "get_key ostr' (Some m1) = get_key ostr' (Some m2)" for ostr'
    using e sort_fragments [OF assms [unfolded keys_def], of "key_fragment ostr'"]
    by (simp add: get_key_def)
  have "get_key ostr1 (Some m1) = get_key ostr2 (Some m1)"
    if "\<forall>(k, v) \<in> set m1. py_str ostr1 v = py_str ostr2 v"
  proof -
    have eq: "map (key_fragment ostr1) m1 = map (key_fragment ostr2) m1"
      using that by (auto simp: key_fragment_def)
    show ?thesis unfolding get_key_def option.case eq ..
  qed
  with order show ?thesis by simp
qed

theorem get_key_order_independent_witness:
  "distinct (keys [(''TIMEZONE'', PStr ''UTC''), (''STRICT_PARSING'', PBool True)]) \<and>
   distinct (keys [(''STRICT_PARSING'', PBool True), (''TIMEZONE'', PStr ''UTC'')]) \<and>
   set [(''TIMEZONE'', PStr ''UTC''), (''STRICT_PARSING'', PBool True)] =
   set [(''STRICT_PARSING'', PBool True), (''TIMEZONE'', PStr ''UTC'')] \<and>
   scalar (PStr ''UTC'') \<and> scalar (PBool True) \<and>
   get_key (str_at ''0x7f1c2a3b4d60'')
     (Some [(''TIMEZONE'', PStr ''UTC''), (''STRICT_PARSING'', PBool True)]) =
   get_key (str_at ''0x7f9e8d7c6b50'')
     (Some [(''STRICT_PARSING'', PBool True), (''TIMEZONE'', PStr ''UTC'')])"
proof -
  let ?m1 = "[(''TIMEZONE'', PStr ''UTC''), (''STRICT_PARSING'', PBool True)]"
  let ?m2 = "[(''STRICT_PARSING'', PBool True), (''TIMEZONE'', PStr ''UTC'')]"
  have 1: "distinct (keys ?m1)" by (simp add: keys_def)
  have 2: "distinct (keys ?m2)" by (simp add: keys_def)
  have 3: "set ?m1 = set ?m2" by auto
  have 4: "\<forall>(k, v) \<in> set ?m1.
      py_str (str_at ''0x7f1c2a3b4d60'') v = py_str (str_at ''0x7f9e8d7c6b50'') v"
    by (simp add: py_str_scalar)
  from get_key_order_independent [OF 1 2 3, of _ "str_at ''0x7f1c2a3b4d60''"
      "str_at ''0x7f9e8d7c6b50''"] 4
  have "get_key (str_at ''0x7f1c2a3b4d60'') (Some ?m1) =
      get_key (str_at ''0x7f9e8d7c6b50'') (Some ?m2)"
    by blast
  with 1 2 3 show ?thesis by simp
qed

text \<open>
  Claim C2. \<^verbatim>\<open>replace\<close> raises the \<^verbatim>\<open>TypeError\<close> whose message is
  \<^verbatim>\<open>Invalid {"k": None}\<close> if and only if some value among the overrides is \<^verbatim>\<open>None\<close>,
  and \<open>k\<close> is then a key of the overrides that holds \<^verbatim>\<open>None\<close>. On an instance that
  carries every option (the module-level instance and every instance handed out do, by
  \<open>snapshot_has_all_options\<close>) and does not hide \<^verbatim>\<open>_get_settings_from_pyfile\<close>,
  with names that \<^verbatim>\<open>setattr\<close> stores, \<^verbatim>\<open>replace\<close> raises nothing at all unless some
  value is \<^verbatim>\<open>None\<close>.
\<close>

theorem replace_raises_iff:
  \<open>((\<exists>k. replace table self mod_settings kwds =
            Inl (TypeError (''Invalid {"'' @ k @ ''": None}''))) \<longleftrightarrow>
       (\<exists>(k, v) \<in> set kwds. v = PNone)) \<and>
    ((\<exists>(k, v) \<in> set kwds. v = PNone) \<longrightarrow>
       (\<exists>k. (k, PNone) \<in> set kwds \<and>
          replace table self mod_settings kwds =
            Inl (TypeError (''Invalid {"'' @ k @ ''": None}'')))) \<and>
    (has_all_options table self \<and> stored_names (keys table) \<and> stored_names (keys kwds) \<and>
     map_of self ''_get_settings_from_pyfile'' = None \<longrightarrow>
       ((\<exists>e. replace table self mod_settings kwds = Inl e) \<longleftrightarrow>
        (\<exists>(k, v) \<in> set kwds. v = PNone)))\<close>
proof -
  have a: \<open>\<exists>k. (k, PNone) \<in> set kwds \<and>
        replace table self mod_settings kwds = Inl (TypeError (''Invalid {"'' @ k @ ''": None}''))\<close>
    if "\<exists>(k, v) \<in> set kwds. v = PNone"
  proof -
    from that have "none_check kwds \<noteq> None"
      by (auto simp: none_check_None)
    then obtain e where e: "none_check kwds = Some e" by blast
    then have "replace table self mod_settings kwds = Inl e"
      by (simp add: replace_def)
    with none_check_Some [OF e] show ?thesis by blast
  qed
  have b: "\<exists>(k, v) \<in> set kwds. v = PNone"
    if \<open>replace table self mod_settings kwds = Inl (TypeError (''Invalid {"'' @ k @ ''": None}''))\<close>
    for k
    using replace_Inl [OF that] by auto
  have c: "\<exists>(k, v) \<in> set kwds. v = PNone"
    if "replace table self mod_settings kwds = Inl e"
      and "has_all_options table self" "stored_names (keys table)" "stored_names (keys kwds)"
      and "map_of self ''_get_settings_from_pyfile'' = None" for e
  proof (rule ccontr)
    assume "\<not> (\<exists>(k, v) \<in> set kwds. v = PNone)"
    then have "none_check kwds = None"
      by (auto simp: none_check_None)
    from replace_succeeds [OF that(2) this that(4,3,5), of mod_settings] that(1)
    show False by auto
  qed
  from a b c show ?thesis by blast
qed

theorem replace_raises_iff_witness:
  \<open>has_all_options [(''TIMEZONE'', PStr ''UTC'')] (settings [(''TIMEZONE'', PStr ''UTC'')]) \<and>
   stored_names (keys [(''TIMEZONE'', PStr ''UTC'')]) \<and>
   stored_names (keys [(''TIMEZONE'', PNone)]) \<and>
   map_of (settings [(''TIMEZONE'', PStr ''UTC'')]) ''_get_settings_from_pyfile'' = None \<and>
   (\<exists>(k, v) \<in> set [(''TIMEZONE'', PNone)]. v = PNone) \<and>
   replace [(''TIMEZONE'', PStr ''UTC'')] (settings [(''TIMEZONE'', PStr ''UTC'')]) PNone
     [(''TIMEZONE'', PNone)] = Inl (TypeError ''Invalid {"TIMEZONE": None}'')\<close>
proof -
  let ?T = "[(''TIMEZONE'', PStr ''UTC'')]"
  have h: "has_all_options ?T (settings ?T)" "stored_names (keys ?T)"
    "stored_names (keys [(''TIMEZONE'', PNone)])"
    "map_of (settings ?T) ''_get_settings_from_pyfile'' = None"
    by (simp_all add: has_all_options_def keys_def settings_def get_settings_from_pyfile_def
        getattr_def stored_names_def data_descriptor_def)
  have n: "\<exists>(k, v) \<in> set [(''TIMEZONE'', PNone)]. v = PNone" by simp
  from replace_raises_iff [of ?T "settings ?T" PNone "[(''TIMEZONE'', PNone)]"] n h
  show ?thesis by simp
qed

text \<open>
  Claim C1 as stated fails. \<^verbatim>\<open>replace\<close> sets \<^verbatim>\<open>_default\<close> to false whatever the
  override says, so the overridden name \<^verbatim>\<open>_default\<close> does not hold the new value. An
  override named \<^verbatim>\<open>__class__\<close> or \<^verbatim>\<open>__weakref__\<close> makes \<^verbatim>\<open>setattr\<close> raise, and no
  snapshot is returned; one named \<^verbatim>\<open>__dict__\<close> replaces the instance dictionary, and
  the snapshot returned lacks the option \<^verbatim>\<open>TIMEZONE\<close>. None of these overrides holds
  \<^verbatim>\<open>None\<close>.
\<close>

theorem replace_overlay_counterexample:
  "replace [(''TIMEZONE'', PStr ''UTC'')] (settings [(''TIMEZONE'', PStr ''UTC'')]) PNone
     [(''_default'', PBool True)] =
     Inr [(''_default'', PBool False), (''TIMEZONE'', PStr ''UTC'')] \<and>
   replace [(''TIMEZONE'', PStr ''UTC'')] (settings [(''TIMEZONE'', PStr ''UTC'')]) PNone
     [(''__class__'', PInt 5)] =
     Inl (TypeError (''__class__ must be set to a class, not '' @ quoted ''int'' @ '' object'')) \<and>
   replace [(''TIMEZONE'', PStr ''UTC'')] (settings [(''TIMEZONE'', PStr ''UTC'')]) PNone
     [(''__weakref__'', PInt 5)] =
     Inl (AttributeError
       (''attribute '' @ quoted ''__weakref__'' @ '' of '' @ quoted ''Settings''
        @ '' objects is not writable'')) \<and>
   replace [(''TIMEZONE'', PStr ''UTC'')] (settings [(''TIMEZONE'', PStr ''UTC'')]) PNone
     [(''TIMEZONE'', PStr ''CET''), (''__dict__'', PDict [])] =
     Inr [(''_default'', PBool False)]"
  by (simp add: replace_def settings_def get_settings_from_pyfile_def keys_def getattr_def
      setdefault_def Settings_def setattr_def)

text \<open>
  Claim C1, amended. For an option table of option names and for overrides without
  \<^verbatim>\<open>None\<close> values whose names \<^verbatim>\<open>setattr\<close> stores (none of \<^verbatim>\<open>__class__\<close>,
  \<^verbatim>\<open>__dict__\<close>, \<^verbatim>\<open>__weakref__\<close>), \<^verbatim>\<open>replace\<close> on the module-level instance returns
  an instance in which every option name of the table is present, each overridden name
  other than the bookkeeping attributes holds the new value, every other option of the
  table reads as on the module-level instance, and \<^verbatim>\<open>_default\<close> is false. The
  bookkeeping attributes: \<^verbatim>\<open>_default\<close> is always set to false, and \<^verbatim>\<open>_mod_settings\<close>
  is set to the \<open>mod_settings\<close> argument when that is true. With no overrides every
  option of the table reads as on the module-level instance.
\<close>

theorem replace_overlay:
  assumes "option_table table" "distinct (keys kwds)" "\<forall>(k, v) \<in> set kwds. v \<noteq> PNone"
    and "stored_names (keys kwds)"
  shows "\<exists>s. replace table (settings table) mod_settings kwds = Inr s \<and>
     (\<forall>x \<in> set (keys table). x \<in> set (keys s)) \<and>
     (\<forall>(k, v) \<in> set kwds.
        k \<noteq> ''_default'' \<and> \<not> (truthy mod_settings \<and> k = ''_mod_settings'') \<longrightarrow>
        getattr table s k = Inr v) \<and>
     (\<forall>x \<in> set (keys table). x \<notin> set (keys kwds) \<longrightarrow>
        getattr table s x = getattr table (settings table) x) \<and>
     getattr table s ''_default'' = Inr (PBool False) \<and>
     (kwds = [] \<longrightarrow>
        (\<forall>x \<in> set (keys table). getattr table s x = getattr table (settings table) x))"
proof -
  have T: "distinct (keys table)" "stored_names (keys table)"
    "''_default'' \<notin> set (keys table)" "''_mod_settings'' \<notin> set (keys table)"
    using assms(1) option_table_stored by (simp_all add: option_table_def)
  have g: "\<forall>x \<in> set (keys table). getattr table (settings table) x = Inr (dict_get table x)"
    using getattr_settings [OF T(1)] T(2) by (simp add: stored_names_iff)
  from replace_Inr [OF assms(3) g assms(2) [unfolded keys_def] assms(4) T(2)
      settings_no_methods(1) [OF assms(1)], of mod_settings]
  obtain s where r: "replace table (settings table) mod_settings kwds = Inr s"
    and m: "\<And>y. map_of s y =
        (if truthy mod_settings \<and> y = ''_mod_settings'' then Some mod_settings
         else if y = ''_default'' then Some (PBool False)
         else case map_of kwds y of Some w \<Rightarrow> Some w
              | None \<Rightarrow> if y \<in> set (keys table) then Some (dict_get table y) else None)"
    by blast
  have present: "x \<in> set (keys s)" if "x \<in> set (keys table)" for x
  proof -
    from that have "map_of s x \<noteq> None"
      by (simp add: m split: option.splits)
    then show ?thesis
      by (simp add: keys_def map_of_eq_None_iff)
  qed
  have over: "getattr table s k = Inr v"
    if "(k, v) \<in> set kwds" "k \<noteq> ''_default''" "\<not> (truthy mod_settings \<and> k = ''_mod_settings'')"
    for k v
  proof -
    from that(1) assms(2) have "map_of kwds k = Some v"
      by (simp add: keys_def)
    with that(2,3) have "map_of s k = Some v"
      by (auto simp: m)
    moreover from that(1) assms(4) have "\<not> data_descriptor k"
      by (force simp: stored_names_iff keys_def)
    ultimately show ?thesis using getattr_instance by blast
  qed
  have other: "getattr table s x = getattr table (settings table) x"
    if "x \<in> set (keys table)" "x \<notin> set (keys kwds)" for x
  proof -
    from that(2) have n: "map_of kwds x = None" by (rule map_of_keys_None)
    from that(1) T(3,4) have x: "x \<noteq> ''_default''" "x \<noteq> ''_mod_settings''" by auto
    from that(1) obtain v where "map_of table x = Some v"
      using map_of_keys_Some by blast
    with that(1) x n have "map_of s x = map_of table x"
      by (simp add: m dict_get_def)
    then have "map_of s x = map_of (settings table) x"
      by (simp add: map_of_settings [OF T(1)])
    moreover from that(1) T(2) have "x \<noteq> ''__dict__''"
      by (auto simp: stored_names_iff data_descriptor_def)
    ultimately show ?thesis using getattr_cong by blast
  qed
  have dflt: "getattr table s ''_default'' = Inr (PBool False)"
    by (rule getattr_instance) (simp_all add: m data_descriptor_def)
  have empty: "getattr table s x = getattr table (settings table) x"
    if "kwds = []" "x \<in> set (keys table)" for x
    using other [of x] that by (simp add: keys_def)
  from r present over other dflt empty show ?thesis
    by (intro exI [of _ s]) blast
qed

theorem replace_overlay_witness:
  "option_table [(''TIMEZONE'', PStr ''UTC''), (''PREFER_DATES_FROM'', PStr ''current_period'')] \<and>
   distinct (keys [(''PREFER_DATES_FROM'', PStr ''past'')]) \<and>
   PNone \<notin> snd ` set [(''PREFER_DATES_FROM'', PStr ''past'')] \<and>
   stored_names (keys [(''PREFER_DATES_FROM'', PStr ''past'')]) \<and>
   (\<exists>s. replace [(''TIMEZONE'', PStr ''UTC''), (''PREFER_DATES_FROM'', PStr ''current_period'')]
           (settings [(''TIMEZONE'', PStr ''UTC''), (''PREFER_DATES_FROM'', PStr ''current_period'')])
           PNone [(''PREFER_DATES_FROM'', PStr ''past'')] = Inr s \<and>
        getattr [(''TIMEZONE'', PStr ''UTC''), (''PREFER_DATES_FROM'', PStr ''current_period'')] s
          ''PREFER_DATES_FROM'' = Inr (PStr ''past'') \<and>
        getattr [(''TIMEZONE'', PStr ''UTC''), (''PREFER_DATES_FROM'', PStr ''current_period'')] s
          ''TIMEZONE'' = Inr (PStr ''UTC'') \<and>
        getattr [(''TIMEZONE'', PStr ''UTC''), (''PREFER_DATES_FROM'', PStr ''current_period'')] s
          ''_default'' = Inr (PBool False))"
proof -
  let ?T = "[(''TIMEZONE'', PStr ''UTC''), (''PREFER_DATES_FROM'', PStr ''current_period'')]"
  let ?K = "[(''PREFER_DATES_FROM'', PStr ''past'')]"
  have 1: "option_table ?T" by (simp add: option_table_def keys_def special_name_def)
  have 2: "distinct (keys ?K)" by (simp add: keys_def)
  have 3: "\<forall>(k, v) \<in> set ?K. v \<noteq> PNone" by simp
  have 4: "stored_names (keys ?K)" by (simp add: stored_names_def keys_def data_descriptor_def)
  from replace_overlay [OF 1 2 3 4, of PNone]
  obtain s where s: "replace ?T (settings ?T) PNone ?K = Inr s"
    "\<forall>(k, v) \<in> set ?K.
        k \<noteq> ''_default'' \<and> \<not> (truthy PNone \<and> k = ''_mod_settings'') \<longrightarrow>
        getattr ?T s k = Inr v"
    "\<forall>x \<in> set (keys ?T). x \<notin> set (keys ?K) \<longrightarrow> getattr ?T s x = getattr ?T (settings ?T) x"
    "getattr ?T s ''_default'' = Inr (PBool False)"
    by blast
  from s(2) have a: "getattr ?T s ''PREFER_DATES_FROM'' = Inr (PStr ''past'')" by simp
  from s(3) have "getattr ?T s ''TIMEZONE'' = getattr ?T (settings ?T) ''TIMEZONE''"
    by (simp add: keys_def)
  then have b: "getattr ?T s ''TIMEZONE'' = Inr (PStr ''UTC'')"
    by (simp add: settings_def get_settings_from_pyfile_def getattr_def)
  from s(1) a b s(4) have "\<exists>s. replace ?T (settings ?T) PNone ?K = Inr s \<and>
      getattr ?T s ''PREFER_DATES_FROM'' = Inr (PStr ''past'') \<and>
      getattr ?T s ''TIMEZONE'' = Inr (PStr ''UTC'') \<and>
      getattr ?T s ''_default'' = Inr (PBool False)"
    by blast
  with 1 2 4 show ?thesis by simp
qed

text \<open>
  Claim C6. With \<^verbatim>\<open>settings\<close> absent or false (\<^verbatim>\<open>None\<close>, \<^verbatim>\<open>{}\<close>, \<^verbatim>\<open>0\<close>,
  \<^verbatim>\<open>False\<close>, ...) the wrapped callable receives the module-level instance, whose
  \<^verbatim>\<open>_default\<close> is still true, the positional arguments as they are, and every other
  keyword argument as it is.
\<close>

theorem wrapper_default:
  assumes "\<not> truthy (dict_get kwargs ''settings'')" "''_default'' \<notin> set (keys table)"
  shows "wrapper table f args kwargs =
           Inr (f args (setitem ''settings'' (PSettings (settings table)) kwargs)) \<and>
         getattr table (settings table) ''_default'' = Inr (PBool True) \<and>
         (\<forall>k. k \<noteq> ''settings'' \<longrightarrow>
            map_of (setitem ''settings'' (PSettings (settings table)) kwargs) k = map_of kwargs k)"
proof -
  have "map_of (settings table) ''_default'' = None"
    using assms(2) by (simp add: map_of_keys_None keys_settings)
  then have "getattr table (settings table) ''_default'' = Inr (PBool True)"
    by (simp add: getattr_def class_attr_def)
  with wrapper_falsy [OF assms(1)] show ?thesis
    by (simp add: map_of_setitem)
qed

theorem wrapper_default_witness:
  "\<not> truthy (dict_get [(''languages'', PList [PStr ''en''])] ''settings'') \<and>
   ''_default'' \<notin> set (keys [(''TIMEZONE'', PStr ''UTC'')]) \<and>
   wrapper [(''TIMEZONE'', PStr ''UTC'')] Pair [PStr ''tomorrow'']
     [(''languages'', PList [PStr ''en''])] =
   Inr ([PStr ''tomorrow''],
        [(''languages'', PList [PStr ''en'']),
         (''settings'', PSettings [(''TIMEZONE'', PStr ''UTC'')])])"
proof -
  have 1: "\<not> truthy (dict_get [(''languages'', PList [PStr ''en''])] ''settings'')"
    by (simp add: dict_get_def)
  have 2: "''_default'' \<notin> set (keys [(''TIMEZONE'', PStr ''UTC'')])"
    by (simp add: keys_def)
  from wrapper_default [OF 1 2, of Pair "[PStr ''tomorrow'']"] 1 2 show ?thesis
    by (simp add: settings_def get_settings_from_pyfile_def)
qed

text \<open>
  Claim C7 as stated fails: \<^verbatim>\<open>settings=0\<close> is neither absent, nor a dictionary, nor an
  instance, and the wrapper does not raise but passes the module-level instance; and the
  exception raised for an integer and for a string is the same, so it does not identify
  the type received.
\<close>

theorem wrapper_type_error_counterexample:
  "wrapper [(''TIMEZONE'', PStr ''UTC'')] Pair [] [(''settings'', PInt 0)] =
     Inr ([], [(''settings'', PSettings [(''TIMEZONE'', PStr ''UTC'')])]) \<and>
   wrapper [(''TIMEZONE'', PStr ''UTC'')] Pair [] [(''settings'', PInt 42)] =
     Inl (TypeError ''settings can only be either dict or instance of Settings class'') \<and>
   wrapper [(''TIMEZONE'', PStr ''UTC'')] Pair [] [(''settings'', PStr ''past'')] =
     Inl (TypeError ''settings can only be either dict or instance of Settings class'')"
  by (simp add: wrapper_def dict_get_def py_or_def settings_def get_settings_from_pyfile_def)

text \<open>
  Claim C7, amended. The wrapper raises
  \<^verbatim>\<open>TypeError("settings can only be either dict or instance of Settings class")\<close> if and
  only if the \<^verbatim>\<open>settings\<close> argument is true and neither a dictionary nor an instance
  of \<^verbatim>\<open>Settings\<close>. The message is this fixed text.
\<close>

theorem wrapper_type_error_iff:
  "wrapper table f args kwargs =
     Inl (TypeError ''settings can only be either dict or instance of Settings class'') \<longleftrightarrow>
   truthy (dict_get kwargs ''settings'') \<and>
   \<not> isinstance_dict (dict_get kwargs ''settings'') \<and>
   \<not> isinstance_Settings (dict_get kwargs ''settings'')"
proof (cases "truthy (dict_get kwargs ''settings'')")
  case False
  then show ?thesis by (simp add: wrapper_falsy)
next
  case True
  show ?thesis
  proof (cases "dict_get kwargs ''settings''")
    case (PDict d)
    with True have d: "d \<noteq> []" by simp
    have "wrapper table f args kwargs \<noteq>
        Inl (TypeError ''settings can only be either dict or instance of Settings class'')"
      unfolding wrapper_dict [OF PDict d]
      using call_replace_Inl [of table "settings table" "PDict d" d]
      by (auto split: sum.splits)
    with PDict show ?thesis by simp
  next
    case (PSettings a)
    then show ?thesis by (simp add: wrapper_Settings)
  qed (use True in \<open>simp_all add: wrapper_other\<close>)
qed

theorem wrapper_type_error_iff_witness:
  "truthy (dict_get [(''settings'', PInt 42)] ''settings'') \<and>
   \<not> isinstance_dict (dict_get [(''settings'', PInt 42)] ''settings'') \<and>
   \<not> isinstance_Settings (dict_get [(''settings'', PInt 42)] ''settings'') \<and>
   wrapper [(''TIMEZONE'', PStr ''UTC'')] Pair [] [(''settings'', PInt 42)] =
     Inl (TypeError ''settings can only be either dict or instance of Settings class'')"
  using wrapper_type_error_iff [of "[(''TIMEZONE'', PStr ''UTC'')]" Pair "[]" "[(''settings'', PInt 42)]"]
  by (simp add: dict_get_def)

text \<open>
  Claim C8. An instance of \<^verbatim>\<open>Settings\<close> given as \<^verbatim>\<open>settings\<close> is passed on as it
  is, with all arguments unchanged; and the arguments a wrapped callable received, given
  to the wrapper again, are passed on unchanged: resolving twice is resolving once.
\<close>

theorem wrapper_snapshot_passthrough:
  "(dict_get kwargs ''settings'' = PSettings a \<longrightarrow>
      wrapper table f args kwargs = Inr (f args kwargs)) \<and>
   (wrapper table Pair args kwargs = Inr (args', kwargs') \<longrightarrow>
      wrapper table f args' kwargs' = Inr (f args' kwargs'))"
proof (intro conjI impI)
  have pass: "wrapper table g xs kw = Inr (g xs kw)" if "dict_get kw ''settings'' = PSettings b"
    for g :: "pyval list \<Rightarrow> pydict \<Rightarrow> 'b" and xs kw b
    using wrapper_Settings [OF that] dict_get_Settings_map_of [OF that]
    by (simp add: setitem_same)
  show "wrapper table f args kwargs = Inr (f args kwargs)"
    if "dict_get kwargs ''settings'' = PSettings a"
    using that by (rule pass)
  show "wrapper table f args' kwargs' = Inr (f args' kwargs')"
    if "wrapper table Pair args kwargs = Inr (args', kwargs')"
  proof -
    from wrapper_Inr [OF that] obtain s where
      "kwargs' = setitem ''settings'' (PSettings s) kwargs" by auto
    then have "dict_get kwargs' ''settings'' = PSettings s"
      by (simp add: dict_get_setitem)
    then show ?thesis by (rule pass)
  qed
qed

theorem wrapper_snapshot_passthrough_witness:
  "dict_get [(''settings'', PSettings [(''TIMEZONE'', PStr ''CET''), (''_default'', PBool False)])]
     ''settings'' = PSettings [(''TIMEZONE'', PStr ''CET''), (''_default'', PBool False)] \<and>
   wrapper [(''TIMEZONE'', PStr ''UTC'')] Pair [PStr ''tomorrow'']
     [(''settings'', PSettings [(''TIMEZONE'', PStr ''CET''), (''_default'', PBool False)])] =
   Inr ([PStr ''tomorrow''],
        [(''settings'', PSettings [(''TIMEZONE'', PStr ''CET''), (''_default'', PBool False)])]) \<and>
   wrapper [(''TIMEZONE'', PStr ''UTC'')] received [PStr ''tomorrow'']
     [(''settings'', PSettings [(''TIMEZONE'', PStr ''CET''), (''_default'', PBool False)])] =
   Inr (PSettings [(''TIMEZONE'', PStr ''CET''), (''_default'', PBool False)])"
proof -
  let ?S = "PSettings [(''TIMEZONE'', PStr ''CET''), (''_default'', PBool False)]"
  let ?T = "[(''TIMEZONE'', PStr ''UTC'')]"
  have 1: "dict_get [(''settings'', ?S)] ''settings'' = ?S"
    by (simp add: dict_get_def)
  have 2: "wrapper ?T Pair [PStr ''tomorrow''] [(''settings'', ?S)] =
      Inr ([PStr ''tomorrow''], [(''settings'', ?S)])"
    using wrapper_snapshot_passthrough
      [where kwargs = "[(''settings'', ?S)]" and table = ?T and f = Pair
         and args = "[PStr ''tomorrow'']"] 1
    by blast
  have 3: "wrapper ?T received [PStr ''tomorrow''] [(''settings'', ?S)] = Inr ?S"
    using wrapper_snapshot_passthrough
      [where kwargs = "[(''settings'', ?S)]" and table = ?T and f = received
         and args = "[PStr ''tomorrow'']" and args' = "[PStr ''tomorrow'']"
         and kwargs' = "[(''settings'', ?S)]"] 1 2
    by (simp add: received_def)
  from 1 2 3 show ?thesis by blast
qed

text \<open>
  Claim C5 as stated fails. A dictionary with the key \<^verbatim>\<open>__class__\<close> makes
  \<^verbatim>\<open>setattr\<close> raise, and one with the key \<^verbatim>\<open>self\<close> or \<^verbatim>\<open>mod_settings\<close> clashes
  with a parameter of \<^verbatim>\<open>replace\<close>: the wrapped callable is never called. A dictionary
  with the key \<^verbatim>\<open>_default\<close> gives an instance whose \<^verbatim>\<open>_default\<close> is false, not the
  value of the dictionary.
\<close>

theorem wrapper_mapping_counterexample:
  "wrapper [(''TIMEZONE'', PStr ''UTC'')] received []
     [(''settings'', PDict [(''__class__'', PInt 5)])] =
     Inl (TypeError (''__class__ must be set to a class, not '' @ quoted ''int'' @ '' object'')) \<and>
   isl (wrapper [(''TIMEZONE'', PStr ''UTC'')] received []
     [(''settings'', PDict [(''self'', PInt 1)])]) \<and>
   isl (wrapper [(''TIMEZONE'', PStr ''UTC'')] received []
     [(''settings'', PDict [(''mod_settings'', PInt 1)])]) \<and>
   wrapper [(''TIMEZONE'', PStr ''UTC'')] received []
     [(''settings'', PDict [(''_default'', PBool True)])] =
     Inr (PSettings [(''_default'', PBool False), (''TIMEZONE'', PStr ''UTC''),
                     (''_mod_settings'', PDict [(''_default'', PBool True)])])"
  by (simp add: wrapper_def call_replace_def dict_get_def py_or_def received_def replace_def
      settings_def get_settings_from_pyfile_def keys_def getattr_def setdefault_def
      Settings_def setattr_def)

text \<open>
  Claim C5, amended. Take an option table of option names and a dictionary given as
  \<^verbatim>\<open>settings\<close> that has no \<^verbatim>\<open>None\<close> value, whose names \<^verbatim>\<open>setattr\<close>
  stores (none of \<^verbatim>\<open>__class__\<close>, \<^verbatim>\<open>__dict__\<close>, \<^verbatim>\<open>__weakref__\<close>) and none of whose
  names is a parameter of \<^verbatim>\<open>replace\<close> (\<^verbatim>\<open>self\<close>, \<^verbatim>\<open>mod_settings\<close>). Then the wrapper
  hands the wrapped callable an instance in which each name of the dictionary other than
  the bookkeeping attributes \<^verbatim>\<open>_default\<close> and \<^verbatim>\<open>_mod_settings\<close> holds the
  dictionary's value and every other option of the table reads as on the module-level
  instance; the dictionary itself is the attribute \<^verbatim>\<open>_mod_settings\<close>, so
  \<^verbatim>\<open>get_key\<close> of the override set of that instance is \<^verbatim>\<open>get_key\<close> of the dictionary.
\<close>

theorem wrapper_mapping:
  assumes "option_table table" "distinct (keys m)" "\<forall>(k, v) \<in> set m. v \<noteq> PNone"
    and "stored_names (keys m)"
    and "''mod_settings'' \<notin> set (keys m)" "''self'' \<notin> set (keys m)"
    and "dict_get kwargs ''settings'' = PDict m"
  shows "\<exists>s. wrapper table f args kwargs =
                Inr (f args (setitem ''settings'' (PSettings s) kwargs)) \<and>
     wrapper table received args kwargs = Inr (PSettings s) \<and>
     (\<forall>(k, v) \<in> set m. k \<noteq> ''_default'' \<and> k \<noteq> ''_mod_settings'' \<longrightarrow>
        getattr table s k = Inr v) \<and>
     (\<forall>x \<in> set (keys table). x \<notin> set (keys m) \<longrightarrow>
        getattr table s x = getattr table (settings table) x) \<and>
     getattr table s ''_mod_settings'' = Inr (PDict m) \<and>
     get_key ostr (overridden table s) = get_key ostr (Some m)"
proof (cases "m = []")
  case True
  have T: "distinct (keys table)" "''_mod_settings'' \<notin> set (keys table)"
    using assms(1) by (simp_all add: option_table_def)
  have f: "\<not> truthy (dict_get kwargs ''settings'')"
    using assms(7) True by simp
  have "map_of (settings table) ''_mod_settings'' = None"
    using T by (simp add: map_of_settings map_of_keys_None)
  then have tag: "getattr table (settings table) ''_mod_settings'' = Inr (PDict m)"
    by (simp add: getattr_def class_attr_def True)
  then have "overridden table (settings table) = Some m"
    by (simp add: overridden_def)
  moreover have "wrapper table received args kwargs = Inr (PSettings (settings table))"
    by (simp add: wrapper_falsy [OF f] received_def dict_get_setitem)
  ultimately show ?thesis
    using tag True by (intro exI [of _ "settings table"]) (simp add: wrapper_falsy [OF f])
next
  case False
  have T: "distinct (keys table)" "stored_names (keys table)"
    "''_default'' \<notin> set (keys table)" "''_mod_settings'' \<notin> set (keys table)"
    using assms(1) option_table_stored by (simp_all add: option_table_def)
  have tr: "truthy (PDict m)" using False by simp
  have g: "\<forall>x \<in> set (keys table). getattr table (settings table) x = Inr (dict_get table x)"
    using getattr_settings [OF T(1)] T(2) by (simp add: stored_names_iff)
  from replace_Inr [OF assms(3) g assms(2) [unfolded keys_def] assms(4) T(2)
      settings_no_methods(1) [OF assms(1)], of "PDict m"]
  obtain s where r: "replace table (settings table) (PDict m) m = Inr s"
    and m: "\<And>y. map_of s y =
        (if truthy (PDict m) \<and> y = ''_mod_settings'' then Some (PDict m)
         else if y = ''_default'' then Some (PBool False)
         else case map_of m y of Some w \<Rightarrow> Some w
              | None \<Rightarrow> if y \<in> set (keys table) then Some (dict_get table y) else None)"
    by blast
  have c: "call_replace table (settings table) (PDict m) m = Inr s"
    using r assms(5,6) settings_no_methods(2) [OF assms(1)] by (simp add: call_replace_eq)
  have w: "wrapper table f args kwargs = Inr (f args (setitem ''settings'' (PSettings s) kwargs))"
    unfolding wrapper_dict [OF assms(7) False] by (simp add: c)
  have w': "wrapper table received args kwargs = Inr (PSettings s)"
    unfolding wrapper_dict [OF assms(7) False] by (simp add: c received_def dict_get_setitem)
  have over: "getattr table s k = Inr v"
    if "(k, v) \<in> set m" "k \<noteq> ''_default''" "k \<noteq> ''_mod_settings''" for k v
  proof -
    from that(1) assms(2) have "map_of m k = Some v"
      by (simp add: keys_def)
    with that(2,3) have "map_of s k = Some v"
      by (simp add: m)
    moreover from that(1) assms(4) have "\<not> data_descriptor k"
      by (force simp: stored_names_iff keys_def)
    ultimately show ?thesis using getattr_instance by blast
  qed
  have other: "getattr table s x = getattr table (settings table) x"
    if "x \<in> set (keys table)" "x \<notin> set (keys m)" for x
  proof -
    from that(2) have n: "map_of m x = None" by (rule map_of_keys_None)
    from that(1) T(3,4) have x: "x \<noteq> ''_default''" "x \<noteq> ''_mod_settings''" by auto
    from that(1) obtain v where "map_of table x = Some v"
      using map_of_keys_Some by blast
    with that(1) x n have "map_of s x = map_of table x"
      by (simp add: m dict_get_def)
    then have "map_of s x = map_of (settings table) x"
      by (simp add: map_of_settings [OF T(1)])
    moreover from that(1) T(2) have "x \<noteq> ''__dict__''"
      by (auto simp: stored_names_iff data_descriptor_def)
    ultimately show ?thesis using getattr_cong by blast
  qed
  have tag: "getattr table s ''_mod_settings'' = Inr (PDict m)"
    by (rule getattr_instance) (use False in \<open>simp_all add: m data_descriptor_def\<close>)
  then have "overridden table s = Some m"
    by (simp add: overridden_def)
  then have key: "get_key ostr (overridden table s) = get_key ostr (Some m)"
    by simp
  from w w' over other tag key show ?thesis
    by (intro exI [of _ s]) blast
qed

theorem wrapper_mapping_witness:
  "option_table [(''TIMEZONE'', PStr ''UTC''), (''PREFER_DATES_FROM'', PStr ''current_period'')] \<and>
   distinct (keys [(''PREFER_DATES_FROM'', PStr ''past'')]) \<and>
   PNone \<notin> snd ` set [(''PREFER_DATES_FROM'', PStr ''past'')] \<and>
   stored_names (keys [(''PREFER_DATES_FROM'', PStr ''past'')]) \<and>
   ''mod_settings'' \<notin> set (keys [(''PREFER_DATES_FROM'', PStr ''past'')]) \<and>
   ''self'' \<notin> set (keys [(''PREFER_DATES_FROM'', PStr ''past'')]) \<and>
   dict_get [(''settings'', PDict [(''PREFER_DATES_FROM'', PStr ''past'')])] ''settings'' =
     PDict [(''PREFER_DATES_FROM'', PStr ''past'')] \<and>
   (\<exists>s. wrapper [(''TIMEZONE'', PStr ''UTC''), (''PREFER_DATES_FROM'', PStr ''current_period'')]
           received [] [(''settings'', PDict [(''PREFER_DATES_FROM'', PStr ''past'')])] =
           Inr (PSettings s) \<and>
        getattr [(''TIMEZONE'', PStr ''UTC''), (''PREFER_DATES_FROM'', PStr ''current_period'')] s
          ''PREFER_DATES_FROM'' = Inr (PStr ''past'') \<and>
        getattr [(''TIMEZONE'', PStr ''UTC''), (''PREFER_DATES_FROM'', PStr ''current_period'')] s
          ''TIMEZONE'' = Inr (PStr ''UTC'') \<and>
        get_key opaque_str
          (overridden [(''TIMEZONE'', PStr ''UTC''), (''PREFER_DATES_FROM'', PStr ''current_period'')] s) =
        get_key opaque_str (Some [(''PREFER_DATES_FROM'', PStr ''past'')]))"
proof -
  let ?T = "[(''TIMEZONE'', PStr ''UTC''), (''PREFER_DATES_FROM'', PStr ''current_period'')]"
  let ?M = "[(''PREFER_DATES_FROM'', PStr ''past'')]"
  let ?K = "[(''settings'', PDict ?M)]"
  have 1: "option_table ?T" by (simp add: option_table_def keys_def special_name_def)
  have 2: "distinct (keys ?M)" by (simp add: keys_def)
  have 3: "\<forall>(k, v) \<in> set ?M. v \<noteq> PNone" by simp
  have 4: "stored_names (keys ?M)" by (simp add: stored_names_def keys_def data_descriptor_def)
  have 5: "''mod_settings'' \<notin> set (keys ?M)" by (simp add: keys_def)
  have 6: "''self'' \<notin> set (keys ?M)" by (simp add: keys_def)
  have 7: "dict_get ?K ''settings'' = PDict ?M" by (simp add: dict_get_def)
  from wrapper_mapping [OF 1 2 3 4 5 6 7, of Pair "[]" opaque_str]
  obtain s where s: "wrapper ?T received [] ?K = Inr (PSettings s)"
    "\<forall>(k, v) \<in> set ?M. k \<noteq> ''_default'' \<and> k \<noteq> ''_mod_settings'' \<longrightarrow> getattr ?T s k = Inr v"
    "\<forall>x \<in> set (keys ?T). x \<notin> set (keys ?M) \<longrightarrow> getattr ?T s x = getattr ?T (settings ?T) x"
    "get_key opaque_str (overridden ?T s) = get_key opaque_str (Some ?M)"
    by blast
  note a = s(1)
  from s(2) have b: "getattr ?T s ''PREFER_DATES_FROM'' = Inr (PStr ''past'')"
    by simp
  have "getattr ?T s ''TIMEZONE'' = getattr ?T (settings ?T) ''TIMEZONE''"
    using s(3) by (simp add: keys_def)
  then have c: "getattr ?T s ''TIMEZONE'' = Inr (PStr ''UTC'')"
    by (simp add: settings_def get_settings_from_pyfile_def getattr_def)
  from a b c s(4) have "\<exists>s. wrapper ?T received [] ?K = Inr (PSettings s) \<and>
      getattr ?T s ''PREFER_DATES_FROM'' = Inr (PStr ''past'') \<and>
      getattr ?T s ''TIMEZONE'' = Inr (PStr ''UTC'') \<and>
      get_key opaque_str (overridden ?T s) = get_key opaque_str (Some ?M)"
    by blast
  with 1 2 4 5 6 7 show ?thesis by simp
qed

text \<open>
  Claim C9 as stated fails: \<^verbatim>\<open>replace\<close> checks the overrides of the caller only. A
  default of the option table that is \<^verbatim>\<open>None\<close> is an attribute of the instance that
  the constructor builds from the table, and \<^verbatim>\<open>setdefault\<close> merges it into every
  overlay after the check. An override named \<^verbatim>\<open>__dict__\<close> passes the check when its
  value is a dictionary, and that dictionary, with the \<^verbatim>\<open>None\<close> it holds for an
  option, becomes the instance dictionary.
\<close>

theorem snapshot_None_counterexample:
  "Settings [(''RELATIVE_BASE'', PNone)] None = Inr [(''RELATIVE_BASE'', PNone)] \<and>
   settings [(''RELATIVE_BASE'', PNone)] = [(''RELATIVE_BASE'', PNone)] \<and>
   replace [(''RELATIVE_BASE'', PNone)] (settings [(''RELATIVE_BASE'', PNone)]) PNone [] =
     Inr [(''RELATIVE_BASE'', PNone), (''_default'', PBool False)] \<and>
   wrapper [(''RELATIVE_BASE'', PNone)] received []
     [(''settings'', PDict [(''TIMEZONE'', PStr ''CET'')])] =
     Inr (PSettings [(''TIMEZONE'', PStr ''CET''), (''RELATIVE_BASE'', PNone),
                     (''_default'', PBool False),
                     (''_mod_settings'', PDict [(''TIMEZONE'', PStr ''CET'')])]) \<and>
   replace [(''TIMEZONE'', PStr ''UTC'')] (settings [(''TIMEZONE'', PStr ''UTC'')]) PNone
     [(''TIMEZONE'', PStr ''CET''), (''__dict__'', PDict [(''TIMEZONE'', PNone)])] =
     Inr [(''TIMEZONE'', PNone), (''_default'', PBool False)] \<and>
   getattr [(''TIMEZONE'', PStr ''UTC'')] [(''TIMEZONE'', PNone), (''_default'', PBool False)]
     ''TIMEZONE'' = Inr PNone"
  by (simp add: settings_def Settings_def get_settings_from_pyfile_def replace_def keys_def
      getattr_def setdefault_def wrapper_def call_replace_def dict_get_def py_or_def
      received_def setattr_def)

text \<open>
  Claim C9, amended. Take an option table of option names none of whose defaults is
  \<^verbatim>\<open>None\<close>. Then in every instance handed out by the module -- the module-level
  instance, each overlay of such an instance and each instance supplied by the wrapper,
  the overrides not naming \<^verbatim>\<open>__dict__\<close> -- every option of the table has a value, and
  it is not \<^verbatim>\<open>None\<close>.
\<close>

theorem snapshot_no_None:
  assumes "snapshot table s" "option_table table" "\<forall>(k, v) \<in> set table. v \<noteq> PNone"
  shows "\<forall>x \<in> set (keys table). \<exists>v. getattr table s x = Inr v \<and> v \<noteq> PNone"
proof
  fix x
  assume x: "x \<in> set (keys table)"
  have "has_all_options table s"
    by (rule snapshot_has_all_options [OF assms(1,2)])
  with x have "case getattr table s x of Inr v \<Rightarrow> True | Inl e \<Rightarrow> False"
    by (simp add: has_all_options_def list_all_iff)
  then obtain v where v: "getattr table s x = Inr v"
    by (cases "getattr table s x") simp_all
  from x option_table_stored [OF assms(2)] have "x \<noteq> ''__weakref__''"
    by (auto simp: stored_names_iff data_descriptor_def)
  from getattr_values [OF v this snapshot_values [OF assms]] v
  show "\<exists>v. getattr table s x = Inr v \<and> v \<noteq> PNone" by blast
qed

theorem snapshot_no_None_witness:
  "snapshot [(''TIMEZONE'', PStr ''UTC'')]
     [(''TIMEZONE'', PStr ''CET''), (''_default'', PBool False)] \<and>
   option_table [(''TIMEZONE'', PStr ''UTC'')] \<and>
   PNone \<notin> snd ` set [(''TIMEZONE'', PStr ''UTC'')] \<and>
   (\<exists>v. getattr [(''TIMEZONE'', PStr ''UTC'')]
           [(''TIMEZONE'', PStr ''CET''), (''_default'', PBool False)] ''TIMEZONE'' = Inr v \<and>
        v \<noteq> PNone)"
proof -
  let ?T = "[(''TIMEZONE'', PStr ''UTC'')]"
  have k: "''__dict__'' \<notin> set (keys [(''TIMEZONE'', PStr ''CET'')])"
    by (simp add: keys_def)
  have "replace ?T (settings ?T) PNone [(''TIMEZONE'', PStr ''CET'')] =
      Inr [(''TIMEZONE'', PStr ''CET''), (''_default'', PBool False)]"
    by (simp add: settings_def Settings_def get_settings_from_pyfile_def replace_def keys_def
        getattr_def setdefault_def setattr_def)
  with snapshot.base [of ?T] k
  have 1: "snapshot ?T [(''TIMEZONE'', PStr ''CET''), (''_default'', PBool False)]"
    by (rule snapshot.overlay)
  have 2: "option_table ?T" by (simp add: option_table_def keys_def special_name_def)
  have 3: "\<forall>(k, v) \<in> set ?T. v \<noteq> PNone" by simp
  from snapshot_no_None [OF 1 2 3] have
    "\<exists>v. getattr ?T [(''TIMEZONE'', PStr ''CET''), (''_default'', PBool False)] ''TIMEZONE'' = Inr v
       \<and> v \<noteq> PNone"
    by (simp add: keys_def)
  with 1 2 show ?thesis by simp
qed

end
